theory Spec2Isabelle
  imports Complex_Main "HOL-Library.AList" "HOL-Library.Log_Nat"
begin

section \<open>Python floats\<close>

text \<open>
  Every balance and every amount of the program is a Python float, an IEEE 754 binary64
  number (a double), and the program adds, subtracts, multiplies and compares them. A double is
  modelled by the rational number it denotes, by one of the two infinities, or by NaN. The two
  zeros are identified: the program never divides, and its sums, differences, products and
  comparisons give the same value for either zero. \<open>Finite x\<close> is a double when \<open>x\<close> is one of
  the numbers described below; \<open>float_of\<close>, and with it every operation, returns such a value
  or an infinity or NaN.
\<close>

datatype double = Finite rat | PosInf | NegInf | NaN

text \<open>Rounding a rational to the nearest integer, a tie going to the even one.\<close>

definition round_half_even :: "rat \<Rightarrow> int" where
  "round_half_even q =
     (if q - of_int \<lfloor>q\<rfloor> < 1 / 2 then \<lfloor>q\<rfloor>
      else if 1 / 2 < q - of_int \<lfloor>q\<rfloor> then \<lfloor>q\<rfloor> + 1
      else if even \<lfloor>q\<rfloor> then \<lfloor>q\<rfloor> else \<lfloor>q\<rfloor> + 1)"

text \<open>
  The finite doubles are the numbers \<open>m * 2 ^ e\<close> with \<open>\<bar>m\<bar> < 2 ^ 53\<close> and
  \<open>- 1074 \<le> e \<le> 971\<close>. In units of \<open>2 ^ - 1074\<close>, the smallest positive double, they are the
  integers of at most 53 bits and the longer integers whose bits below the leading 53 are zero:
  around a magnitude \<open>X\<close> given in these units the doubles are \<open>ulp_scaled X\<close> apart, and
  \<open>round_scaled X\<close> is the nearest of them, a tie going to the even significand.
\<close>

definition ulp_scaled :: "rat \<Rightarrow> rat" where
  "ulp_scaled X = 2 ^ nat (bitlen \<lfloor>X\<rfloor> - 53)"

definition round_scaled :: "rat \<Rightarrow> rat" where
  "round_scaled X = of_int (round_half_even (X / ulp_scaled X)) * ulp_scaled X"

text \<open>
  The double nearest to a rational number (round to nearest, ties to even), an infinity when
  the rounded magnitude reaches \<open>2 ^ 1024\<close>. It is the result of every arithmetic operation on
  the exact result, the value of a float literal such as \<^verbatim>\<open>0.025\<close>, and what \<^verbatim>\<open>float(...)\<close>
  returns for a decimal numeral.
\<close>

definition float_of :: "rat \<Rightarrow> double" where
  "float_of x =
     (if 2 ^ 2098 \<le> round_scaled (\<bar>x\<bar> * 2 ^ 1074) then (if 0 < x then PosInf else NegInf)
      else Finite (sgn x * round_scaled (\<bar>x\<bar> * 2 ^ 1074) / 2 ^ 1074))"

text \<open>
  The operators \<^verbatim>\<open>-x\<close>, \<^verbatim>\<open>x + y\<close>, \<^verbatim>\<open>x - y\<close>, \<^verbatim>\<open>x * y\<close> on doubles: the exact result, rounded; NaN
  for the difference of two equal infinities, for zero times an infinity and whenever an
  operand is NaN.
\<close>

fun fneg :: "double \<Rightarrow> double" where
  "fneg (Finite x) = Finite (- x)"
| "fneg PosInf = NegInf"
| "fneg NegInf = PosInf"
| "fneg NaN = NaN"

fun fadd :: "double \<Rightarrow> double \<Rightarrow> double" where
  "fadd (Finite x) (Finite y) = float_of (x + y)"
| "fadd NaN _ = NaN"
| "fadd _ NaN = NaN"
| "fadd PosInf NegInf = NaN"
| "fadd NegInf PosInf = NaN"
| "fadd PosInf _ = PosInf"
| "fadd _ PosInf = PosInf"
| "fadd NegInf _ = NegInf"
| "fadd _ NegInf = NegInf"

definition fsub :: "double \<Rightarrow> double \<Rightarrow> double" where
  "fsub a b = fadd a (fneg b)"

fun fmul :: "double \<Rightarrow> double \<Rightarrow> double" where
  "fmul (Finite x) (Finite y) = float_of (x * y)"
| "fmul NaN _ = NaN"
| "fmul _ NaN = NaN"
| "fmul (Finite x) PosInf = (if x = 0 then NaN else if 0 < x then PosInf else NegInf)"
| "fmul (Finite x) NegInf = (if x = 0 then NaN else if 0 < x then NegInf else PosInf)"
| "fmul PosInf (Finite y) = (if y = 0 then NaN else if 0 < y then PosInf else NegInf)"
| "fmul NegInf (Finite y) = (if y = 0 then NaN else if 0 < y then NegInf else PosInf)"
| "fmul PosInf PosInf = PosInf"
| "fmul PosInf NegInf = NegInf"
| "fmul NegInf PosInf = NegInf"
| "fmul NegInf NegInf = PosInf"

text \<open>
  The comparisons \<^verbatim>\<open>x < y\<close> and \<^verbatim>\<open>x <= y\<close>; \<^verbatim>\<open>x > y\<close> is \<open>flt y x\<close> and \<^verbatim>\<open>x >= y\<close> is \<open>fle y x\<close>.
  Every comparison with NaN is false. Where the program compares a float with an \<^verbatim>\<open>int\<close>
  constant (\<^verbatim>\<open>0\<close>, \<^verbatim>\<open>100\<close>, \<^verbatim>\<open>1000\<close>) or starts a sum of floats at the \<^verbatim>\<open>int\<close> \<^verbatim>\<open>0\<close>, the constant is
  the double \<open>Finite 0\<close>, \<open>Finite 100\<close>, \<open>Finite 1000\<close> of the same value.
\<close>

fun flt :: "double \<Rightarrow> double \<Rightarrow> bool" where
  "flt (Finite x) (Finite y) = (x < y)"
| "flt NaN _ = False"
| "flt _ NaN = False"
| "flt _ NegInf = False"
| "flt NegInf _ = True"
| "flt PosInf _ = False"
| "flt _ PosInf = True"

fun fle :: "double \<Rightarrow> double \<Rightarrow> bool" where
  "fle (Finite x) (Finite y) = (x \<le> y)"
| "fle NaN _ = False"
| "fle _ NaN = False"
| "fle NegInf _ = True"
| "fle _ PosInf = True"
| "fle _ NegInf = False"
| "fle PosInf _ = False"

section \<open>Data model\<close>

text \<open>
  The three front-ends (\<^verbatim>\<open>console_main.py\<close>, \<^verbatim>\<open>streamlit_main.py\<close>, \<^verbatim>\<open>main.py\<close>) keep the
  same ledger: a blockchain, a dictionary of accounts and a list of pending transactions.

  Balances and amounts are Python floats: values of type \<open>double\<close>, computed with the
  operations above.

  A Python dictionary keeps its keys in insertion order and assigning to an existing key
  keeps the key's position, so the account dictionary is an association list read with
  \<^const>\<open>map_of\<close> and written with \<^const>\<open>AList.update\<close>.
\<close>

record account =
  balance :: double
  roll_no :: string

type_synonym account_store = "(string \<times> account) list"

text \<open>
  \<^verbatim>\<open>TransactionWrapper\<close>: sender, receiver, amount. In the console the wrapper also holds
  \<^verbatim>\<open>accounts_ref\<close>, which is the one dictionary \<^verbatim>\<open>self.accounts\<close> (never rebound), so it is the
  account store passed to \<open>apply_to_accounts\<close> below.
\<close>

record transaction =
  sender :: string
  receiver :: string
  amount :: double

text \<open>
  The exceptions raised while a transfer is applied: the two \<^verbatim>\<open>Exception(...)\<close> of
  \<^verbatim>\<open>apply_to_accounts\<close>, and the \<^verbatim>\<open>KeyError\<close> of a dictionary read of a missing key.
\<close>

datatype tx_error = DoesNotExist | Insufficient | KeyError

text \<open>
  The lines logged in a block are f-strings in the source. Each constructor is one f-string
  template and carries the values interpolated into it (the rendering of floats to text is
  not modelled):
  \<^item> \<open>GenesisMarker\<close>: the fixed entry of the genesis block;
  \<^item> \<open>ZakatCollection c\<close>: \<^verbatim>\<open>f"Zakat Collection: {zakat_collected:.2f} collected"\<close>;
  \<^item> \<open>ZakatDetail n r z\<close>: \<^verbatim>\<open>f"  Zakat from {account_name} ({roll_no}): {zakat_amount:.2f}"\<close>;
  \<^item> \<open>TransferRecord s sr r rr a\<close>:
    \<^verbatim>\<open>f"{sender} ({sender_roll}) -> {receiver} ({receiver_roll}): {amount}"\<close>;
  \<^item> \<open>PlainTransferRecord s r a\<close>: \<^verbatim>\<open>f"{sender} -> {receiver}: {amount}"\<close> of \<^verbatim>\<open>main.py\<close>.
\<close>

datatype entry =
    GenesisMarker
  | ZakatCollection double
  | ZakatDetail string string double
  | TransferRecord string string string string double
  | PlainTransferRecord string string double

section \<open>Applying a transfer\<close>

text \<open>
  \<^verbatim>\<open>TransactionWrapper.apply_to_accounts\<close> (the same body in \<^verbatim>\<open>console_main.py\<close> and
  \<^verbatim>\<open>streamlit_main.py\<close>):
  \<^verbatim>\<open>
    if self.sender not in accounts or self.receiver not in accounts:
        raise Exception("Sender or receiver does not exist.")
    if accounts[self.sender]["balance"] < self.amount:
        raise Exception("Insufficient balance.")
    accounts[self.sender]["balance"] -= self.amount
    accounts[self.receiver]["balance"] += self.amount
  \<close>
  \<open>sub_from_balance\<close> is the in-place \<^verbatim>\<open>accounts[name]["balance"] -= amount\<close> and
  \<open>add_to_balance\<close> the in-place \<^verbatim>\<open>accounts[name]["balance"] += amount\<close>: the entry is read,
  the float operation is made, the result is stored under the same key.
\<close>

definition sub_from_balance :: "string \<Rightarrow> double \<Rightarrow> account_store \<Rightarrow> tx_error + account_store" where
  "sub_from_balance name amt accs =
     (case map_of accs name of
        None \<Rightarrow> Inl KeyError
      | Some a \<Rightarrow> Inr (AList.update name (a\<lparr>balance := fsub (balance a) amt\<rparr>) accs))"

definition add_to_balance :: "string \<Rightarrow> double \<Rightarrow> account_store \<Rightarrow> tx_error + account_store" where
  "add_to_balance name amt accs =
     (case map_of accs name of
        None \<Rightarrow> Inl KeyError
      | Some a \<Rightarrow> Inr (AList.update name (a\<lparr>balance := fadd (balance a) amt\<rparr>) accs))"

definition apply_to_accounts :: "transaction \<Rightarrow> account_store \<Rightarrow> tx_error + account_store" where
  "apply_to_accounts t accs =
     (if map_of accs (sender t) = None \<or> map_of accs (receiver t) = None then Inl DoesNotExist
      else case map_of accs (sender t) of
        None \<Rightarrow> Inl KeyError
      | Some sa \<Rightarrow>
          if flt (balance sa) (amount t) then Inl Insufficient
          else case sub_from_balance (sender t) (amount t) accs of
            Inl e \<Rightarrow> Inl e
          | Inr accs1 \<Rightarrow> add_to_balance (receiver t) (amount t) accs1)"

definition balance_of :: "account_store \<Rightarrow> string \<Rightarrow> double option" where
  "balance_of accs name = map_option balance (map_of accs name)"

definition roll_of :: "account_store \<Rightarrow> string \<Rightarrow> string option" where
  "roll_of accs name = map_option roll_no (map_of accs name)"

section \<open>The zakat levy\<close>

text \<open>
  \<^verbatim>\<open>calculate_zakat(balance, rate=0.025)\<close> returns \<^verbatim>\<open>balance * rate\<close>; every call in the
  source leaves the rate at its default, the double written \<^verbatim>\<open>0.025\<close>.
\<close>

definition calculate_zakat :: "double \<Rightarrow> double \<Rightarrow> double" where
  "calculate_zakat bal rate = fmul bal rate"

definition default_rate :: double where
  "default_rate = float_of (25 / 1000)"

text \<open>
  \<^verbatim>\<open>apply_zakat_to_accounts\<close> of \<^verbatim>\<open>console_main.py\<close> and \<^verbatim>\<open>streamlit_main.py\<close> is the same
  loop with a different \<^verbatim>\<open>zakat_threshold\<close> (100 and 1000):
  \<^verbatim>\<open>
    for account_name in accounts:
        balance = accounts[account_name]["balance"]
        if balance >= zakat_threshold:
            zakat_amount = calculate_zakat(balance)
            accounts[account_name]["balance"] -= zakat_amount
            zakat_collected += zakat_amount
            roll_no = accounts[account_name]["roll_no"]
            zakat_details.append(f"{account_name} ({roll_no}): {zakat_amount:.2f}")
    return zakat_collected, zakat_details
  \<close>
  The loop visits every entry of the dictionary once, in order, and
  \<^verbatim>\<open>accounts[account_name]\<close> is the entry being visited. The loop state is the entries
  already visited (as they now are), the total collected and the detail list; a detail is
  the triple interpolated into the f-string.
\<close>

type_synonym zakat_detail = "string \<times> string \<times> double"

fun zakat_loop ::
  "double \<Rightarrow> account_store \<Rightarrow> account_store \<times> double \<times> zakat_detail list
     \<Rightarrow> account_store \<times> double \<times> zakat_detail list" where
  "zakat_loop zakat_threshold [] st = st"
| "zakat_loop zakat_threshold ((account_name, a) # rest) (visited, zakat_collected, zakat_details) =
     (if fle zakat_threshold (balance a) then
        zakat_loop zakat_threshold rest
          (visited @ [(account_name, a\<lparr>balance := fsub (balance a) (calculate_zakat (balance a) default_rate)\<rparr>)],
           fadd zakat_collected (calculate_zakat (balance a) default_rate),
           zakat_details @ [(account_name, roll_no a, calculate_zakat (balance a) default_rate)])
      else zakat_loop zakat_threshold rest (visited @ [(account_name, a)], zakat_collected, zakat_details))"

text \<open>\<^verbatim>\<open>BlockchainConsole.apply_zakat_to_accounts\<close>: threshold 100.\<close>

definition apply_zakat_to_accounts :: "account_store \<Rightarrow> account_store \<times> double \<times> zakat_detail list" where
  "apply_zakat_to_accounts accs = zakat_loop (Finite 100) accs ([], Finite 0, [])"

text \<open>\<^verbatim>\<open>apply_zakat_to_accounts\<close> of \<^verbatim>\<open>streamlit_main.py\<close>: threshold 1000.\<close>

definition st_apply_zakat_to_accounts :: "account_store \<Rightarrow> account_store \<times> double \<times> zakat_detail list" where
  "st_apply_zakat_to_accounts accs = zakat_loop (Finite 1000) accs ([], Finite 0, [])"

text \<open>
  \<^verbatim>\<open>main.py\<close> keeps \<^verbatim>\<open>accounts[name]\<close> as the bare balance and returns the total only:
  \<^verbatim>\<open>
    for account in accounts:
        if accounts[account] >= zakat_threshold:        # 1000
            zakat_amount = calculate_zakat(accounts[account])
            accounts[account] -= zakat_amount
            zakat_collected += zakat_amount
    return zakat_collected
  \<close>
\<close>

type_synonym main_account_store = "(string \<times> double) list"

fun main_zakat_loop ::
  "main_account_store \<Rightarrow> main_account_store \<times> double \<Rightarrow> main_account_store \<times> double" where
  "main_zakat_loop [] st = st"
| "main_zakat_loop ((account, bal) # rest) (visited, zakat_collected) =
     (if fle (Finite 1000) bal then
        main_zakat_loop rest
          (visited @ [(account, fsub bal (calculate_zakat bal default_rate))],
           fadd zakat_collected (calculate_zakat bal default_rate))
      else main_zakat_loop rest (visited @ [(account, bal)], zakat_collected))"

definition main_apply_zakat_to_accounts :: "main_account_store \<Rightarrow> main_account_store \<times> double" where
  "main_apply_zakat_to_accounts accs = main_zakat_loop accs ([], Finite 0)"

text \<open>
  What one round of the loop does to the account it visits and to the total, used to state the
  results of the loops.
\<close>

definition levied :: "double \<Rightarrow> account \<Rightarrow> account" where
  "levied zakat_threshold a =
     (if fle zakat_threshold (balance a)
      then a\<lparr>balance := fsub (balance a) (calculate_zakat (balance a) default_rate)\<rparr> else a)"

definition collect :: "double \<Rightarrow> double \<Rightarrow> double \<Rightarrow> double" where
  "collect zakat_threshold zakat_collected bal =
     (if fle zakat_threshold bal then fadd zakat_collected (calculate_zakat bal default_rate)
      else zakat_collected)"

section \<open>Blocks and the chain\<close>

text \<open>
  The front-ends import \<^verbatim>\<open>Block\<close> from \<^verbatim>\<open>block.py\<close> and \<^verbatim>\<open>Blockchain\<close> from \<^verbatim>\<open>miner.py\<close>; neither
  file is part of the sources at hand. What the front-ends use of them is the constructor
  \<^verbatim>\<open>Blockchain(roll_no=...)\<close>, \<^verbatim>\<open>add_block(transactions=..., roll_no=...)\<close>, \<^verbatim>\<open>is_valid()\<close>, the list
  \<^verbatim>\<open>chain\<close>, and the block attributes \<^verbatim>\<open>hash\<close>, \<^verbatim>\<open>prev_hash\<close>, \<^verbatim>\<open>timestamp\<close>, \<^verbatim>\<open>roll_no\<close>,
  \<^verbatim>\<open>transactions\<close>. Their behaviour is taken from the specification's sections on Block and
  Chain. The digest function and the sentinel that stands for the predecessor of the genesis
  block are parameters; the clock is the parameter \<open>now\<close>.
\<close>

record 'd block =
  prev_hash :: 'd
  timestamp :: real
  block_roll_no :: string
  transactions :: "entry list"
  hash :: 'd

type_synonym 'd digest_fn = "'d \<Rightarrow> real \<Rightarrow> string \<Rightarrow> entry list \<Rightarrow> 'd"

text \<open>
  Modelled from the spec: \<^verbatim>\<open>Block\<close> (\<^verbatim>\<open>block.py\<close> is missing). The digest is "computed once, over
  (previous_digest, created_at, creator_id, entries), at construction time"; \<open>compute_hash\<close> is
  the fresh recomputation that \<^verbatim>\<open>verify()\<close> compares with the stored digest.
\<close>

definition compute_hash :: "'d digest_fn \<Rightarrow> 'd block \<Rightarrow> 'd" where
  "compute_hash H b = H (prev_hash b) (timestamp b) (block_roll_no b) (transactions b)"

definition new_block :: "'d digest_fn \<Rightarrow> 'd \<Rightarrow> real \<Rightarrow> string \<Rightarrow> entry list \<Rightarrow> 'd block" where
  "new_block H prev now creator entries =
     \<lparr>prev_hash = prev, timestamp = now, block_roll_no = creator, transactions = entries,
      hash = H prev now creator entries\<rparr>"

text \<open>
  Modelled from the spec: \<^verbatim>\<open>Blockchain\<close> (\<^verbatim>\<open>miner.py\<close> is missing). A chain always holds its
  genesis block ("index 0 is the genesis block", "no deletion"), so it is the genesis block
  and the list of the blocks appended after it; \<open>chain\<close> is the stored sequence.
\<close>

record 'd blockchain =
  genesis :: "'d block"
  mined :: "'d block list"

definition chain :: "'d blockchain \<Rightarrow> 'd block list" where
  "chain c = genesis c # mined c"

definition tail :: "'d blockchain \<Rightarrow> 'd block" where
  "tail c = last (chain c)"

text \<open>
  Modelled from the spec: \<^verbatim>\<open>Blockchain(roll_no=...)\<close>, the spec's \<^verbatim>\<open>new()\<close>: "returns a chain
  containing only the genesis block", whose previous digest is the sentinel and whose entries
  are a fixed genesis marker.
\<close>

definition new_blockchain :: "'d digest_fn \<Rightarrow> 'd \<Rightarrow> real \<Rightarrow> string \<Rightarrow> 'd blockchain" where
  "new_blockchain H sentinel now creator =
     \<lparr>genesis = new_block H sentinel now creator [GenesisMarker], mined = []\<rparr>"

datatype chain_error = EmptyBatch

text \<open>
  Modelled from the spec: \<^verbatim>\<open>add_block\<close>, the spec's \<^verbatim>\<open>append(entries, creator_id, now)\<close>: "builds
  a Block linking to the current tail's digest, appends it, returns the new Block (or fails
  with EmptyBatch if entries is empty)". The result here is the chain after the call.
\<close>

definition add_block ::
  "'d digest_fn \<Rightarrow> real \<Rightarrow> entry list \<Rightarrow> string \<Rightarrow> 'd blockchain \<Rightarrow> chain_error + 'd blockchain" where
  "add_block H now entries creator c =
     (if entries = [] then Inl EmptyBatch
      else Inr (c\<lparr>mined := mined c @ [new_block H (hash (tail c)) now creator entries]\<rparr>))"

text \<open>
  Modelled from the spec: \<^verbatim>\<open>is_valid()\<close> / \<^verbatim>\<open>validate_chain()\<close>: "walks the chain from the genesis
  block forward; for each block, recomputes its digest and compares both to the stored digest
  and to the successor's previous_digest", and reports the first offending index. A stored
  digest that differs from the recomputation is reported at the block's own index; a successor
  whose previous digest differs is reported at the successor's index (the chain invariant
  "for every index i>0, chain[i].previous_digest == chain[i-1].digest" is indexed so). The walk
  runs over a stored block sequence, which a caller may have altered behind \<^verbatim>\<open>add_block\<close>;
  on a chain that holds only its genesis block it compares that block's digest and nothing else.
\<close>

fun first_invalid_from :: "'d digest_fn \<Rightarrow> nat \<Rightarrow> 'd block list \<Rightarrow> nat option" where
  "first_invalid_from H i [] = None"
| "first_invalid_from H i [b] = (if compute_hash H b \<noteq> hash b then Some i else None)"
| "first_invalid_from H i (b # b' # bs) =
     (if compute_hash H b \<noteq> hash b then Some i
      else if prev_hash b' \<noteq> compute_hash H b then Some (Suc i)
      else first_invalid_from H (Suc i) (b' # bs))"

definition first_invalid_index :: "'d digest_fn \<Rightarrow> 'd block list \<Rightarrow> nat option" where
  "first_invalid_index H bs = first_invalid_from H 0 bs"

definition is_valid :: "'d digest_fn \<Rightarrow> 'd block list \<Rightarrow> bool" where
  "is_valid H bs = (first_invalid_index H bs = None)"

text \<open>
  A chain built solely by \<open>add_block\<close>: the calls are given by their arguments
  (entries, creator, time), made in order, each of which has to succeed.
\<close>

fun add_blocks ::
  "'d digest_fn \<Rightarrow> (entry list \<times> string \<times> real) list \<Rightarrow> 'd blockchain \<Rightarrow> chain_error + 'd blockchain" where
  "add_blocks H [] c = Inr c"
| "add_blocks H ((entries, creator, now) # calls) c =
     (case add_block H now entries creator c of
        Inl e \<Rightarrow> Inl e
      | Inr c' \<Rightarrow> add_blocks H calls c')"

section \<open>The ledger of the console and of the dashboard\<close>

text \<open>
  \<^verbatim>\<open>BlockchainConsole\<close> holds \<^verbatim>\<open>blockchain\<close>, \<^verbatim>\<open>accounts\<close> and \<^verbatim>\<open>pending_transactions\<close>;
  \<^verbatim>\<open>streamlit_main.py\<close> holds the same three in \<^verbatim>\<open>st.session_state\<close>.
\<close>

record 'd ledger =
  blockchain :: "'d blockchain"
  accounts :: account_store
  pending_transactions :: "transaction list"

section \<open>Mining\<close>

text \<open>
  The loop over the pending transactions, the same in \<^verbatim>\<open>mine_block\<close> (console) and in
  \<^verbatim>\<open>process_pending_transactions\<close> (\<^verbatim>\<open>streamlit_main.py\<close>):
  \<^verbatim>\<open>
    for transaction in pending_transactions:
        try:
            transaction.apply_to_accounts()
            sender_roll = accounts[transaction.sender]["roll_no"]
            receiver_roll = accounts[transaction.receiver]["roll_no"]
            transaction_records.append(f"{transaction.sender} ({sender_roll}) -> ...")
            successful_transactions.append(transaction)
        except Exception as e:
            ...
            return False
  \<close>
  On an exception the function returns at once: \<open>Inl\<close> carries the exception and the accounts
  as they are at that moment. Otherwise \<open>Inr\<close> carries the accounts and the records after the
  loop. (\<^verbatim>\<open>successful_transactions\<close> is only counted for a message and is left out.)
\<close>

fun process_transactions ::
  "transaction list \<Rightarrow> account_store \<Rightarrow> entry list
     \<Rightarrow> (tx_error \<times> account_store) + (account_store \<times> entry list)" where
  "process_transactions [] accs transaction_records = Inr (accs, transaction_records)"
| "process_transactions (t # ts) accs transaction_records =
     (case apply_to_accounts t accs of
        Inl e \<Rightarrow> Inl (e, accs)
      | Inr accs1 \<Rightarrow>
          (case map_of accs1 (sender t) of
             None \<Rightarrow> Inl (KeyError, accs1)
           | Some sa \<Rightarrow>
               (case map_of accs1 (receiver t) of
                  None \<Rightarrow> Inl (KeyError, accs1)
                | Some ra \<Rightarrow>
                    process_transactions ts accs1
                      (transaction_records @
                         [TransferRecord (sender t) (roll_no sa) (receiver t) (roll_no ra) (amount t)]))))"

text \<open>
  \<^verbatim>\<open>miner_roll = accounts[pending_transactions[0].sender]["roll_no"] if pending_transactions
  else "SYSTEM"\<close>, in both front-ends.
\<close>

definition miner_roll :: "account_store \<Rightarrow> transaction list \<Rightarrow> tx_error + string" where
  "miner_roll accs pending =
     (case pending of
        [] \<Rightarrow> Inr ''SYSTEM''
      | t # _ \<Rightarrow> (case map_of accs (sender t) of None \<Rightarrow> Inl KeyError | Some a \<Rightarrow> Inr (roll_no a)))"

text \<open>
  \<^verbatim>\<open>BlockchainConsole.mine_block\<close>. The outcomes are the ways the method ends: it returns
  \<^verbatim>\<open>None\<close> after "No pending transactions to mine!", \<^verbatim>\<open>False\<close> after "Transaction failed",
  \<^verbatim>\<open>False\<close> after "Failed to mine block!", \<^verbatim>\<open>True\<close> after "Block mined successfully", or the
  \<^verbatim>\<open>KeyError\<close> of the \<^verbatim>\<open>miner_roll\<close> line leaves the method. The zakat details are printed, not
  logged: only the summary line enters \<^verbatim>\<open>transaction_records\<close>.
\<close>

datatype mine_outcome =
    NoPendingTransactions
  | TransactionFailed tx_error
  | FailedToMineBlock
  | Raised tx_error
  | BlockMined

text \<open>
  \<^verbatim>\<open>if zakat_collected > 0: transaction_records.append(f"Zakat Collection: ...")\<close>, on the
  empty \<^verbatim>\<open>transaction_records\<close> (the console, and \<^verbatim>\<open>main.py\<close> alike).
\<close>

definition console_zakat_records :: "double \<Rightarrow> entry list" where
  "console_zakat_records zakat_collected =
     (if flt (Finite 0) zakat_collected then [ZakatCollection zakat_collected] else [])"

text \<open>
  The end of both mining functions, once every pending transaction has been applied:
  \<^verbatim>\<open>
    if transaction_records:
        miner_roll = ...
        block_success = blockchain.add_block(transactions=transaction_records, roll_no=miner_roll)
        if block_success:
            pending_transactions = []
            return True
    return False          # the console prints "Failed to mine block!" first
  \<close>
  The accounts are the dictionary as the levy and the transfers left it, whichever way the
  function ends.
\<close>

definition commit_block ::
  "'d digest_fn \<Rightarrow> real \<Rightarrow> 'd ledger \<Rightarrow> account_store \<Rightarrow> entry list \<Rightarrow> mine_outcome \<times> 'd ledger" where
  "commit_block H now s accs transaction_records =
     (if transaction_records = [] then (FailedToMineBlock, s\<lparr>accounts := accs\<rparr>)
      else case miner_roll accs (pending_transactions s) of
        Inl e \<Rightarrow> (Raised e, s\<lparr>accounts := accs\<rparr>)
      | Inr roll \<Rightarrow>
          (case add_block H now transaction_records roll (blockchain s) of
             Inl e \<Rightarrow> (FailedToMineBlock, s\<lparr>accounts := accs\<rparr>)
           | Inr c \<Rightarrow> (BlockMined, s\<lparr>blockchain := c, accounts := accs, pending_transactions := []\<rparr>)))"

definition mine_block :: "'d digest_fn \<Rightarrow> real \<Rightarrow> 'd ledger \<Rightarrow> mine_outcome \<times> 'd ledger" where
  "mine_block H now s =
     (if pending_transactions s = [] then (NoPendingTransactions, s)
      else case apply_zakat_to_accounts (accounts s) of
        (accs1, zakat_collected, zakat_details) \<Rightarrow>
          (case process_transactions (pending_transactions s) accs1
                  (console_zakat_records zakat_collected) of
             Inl (e, accs2) \<Rightarrow> (TransactionFailed e, s\<lparr>accounts := accs2\<rparr>)
           | Inr (accs2, transaction_records) \<Rightarrow> commit_block H now s accs2 transaction_records))"

text \<open>
  \<^verbatim>\<open>process_pending_transactions\<close> of \<^verbatim>\<open>streamlit_main.py\<close>: the same steps (the part from
  \<^verbatim>\<open>if transaction_records:\<close> on is \<open>commit_block\<close>), with threshold 1000, and after the summary
  line one line per zakat detail is logged:
  \<^verbatim>\<open>
    if zakat_collected > 0:
        transaction_records.append(f"Zakat Collection: {zakat_collected:.2f} collected")
        for detail in zakat_details:
            transaction_records.append(f"  Zakat from {detail}")
  \<close>
  The function returns \<^verbatim>\<open>True\<close> when the block is mined and \<^verbatim>\<open>False\<close> otherwise; the outcome
  kept here tells the \<^verbatim>\<open>False\<close> returns apart, \<open>st_returned\<close> is the value returned.
\<close>

definition st_zakat_records :: "double \<Rightarrow> zakat_detail list \<Rightarrow> entry list" where
  "st_zakat_records zakat_collected zakat_details =
     (if flt (Finite 0) zakat_collected
      then ZakatCollection zakat_collected # map (\<lambda>(n, r, z). ZakatDetail n r z) zakat_details
      else [])"

definition st_process_pending_transactions ::
  "'d digest_fn \<Rightarrow> real \<Rightarrow> 'd ledger \<Rightarrow> mine_outcome \<times> 'd ledger" where
  "st_process_pending_transactions H now s =
     (if pending_transactions s = [] then (NoPendingTransactions, s)
      else case st_apply_zakat_to_accounts (accounts s) of
        (accs1, zakat_collected, zakat_details) \<Rightarrow>
          (case process_transactions (pending_transactions s) accs1
                  (st_zakat_records zakat_collected zakat_details) of
             Inl (e, accs2) \<Rightarrow> (TransactionFailed e, s\<lparr>accounts := accs2\<rparr>)
           | Inr (accs2, transaction_records) \<Rightarrow> commit_block H now s accs2 transaction_records))"

definition st_returned :: "mine_outcome \<Rightarrow> bool" where
  "st_returned outcome = (outcome = BlockMined)"

section \<open>Submitting a transaction\<close>

text \<open>
  \<^verbatim>\<open>BlockchainConsole.create_transaction\<close>. The three prompts are the arguments: what
  \<^verbatim>\<open>int(input(...))\<close> and \<^verbatim>\<open>float(input(...))\<close> returned, or \<open>None\<close> where they raised
  \<^verbatim>\<open>ValueError\<close> (caught: "Invalid input!"). \<^verbatim>\<open>float\<close> returns any double: it accepts \<^verbatim>\<open>"nan"\<close>
  and \<^verbatim>\<open>"inf"\<close>, and a numeral too large for a double gives an infinity. The method reads the
  amount only once the selections have passed their tests. The selections are numbers into
  \<^verbatim>\<open>accounts_list = list(self.accounts.keys())\<close>, counted from 1. The outcome is the message
  printed; \<open>SubmitRaised\<close> is a \<^verbatim>\<open>KeyError\<close> leaving the method.
\<close>

datatype submit_outcome =
    NeedTwoAccounts
  | InvalidInput
  | InvalidSenderSelection
  | InvalidReceiverSelection
  | SameSenderAndReceiver
  | AmountNotPositive
  | InsufficientAtSubmission
  | SubmitRaised tx_error
  | TransactionAdded

definition create_transaction ::
  "int option \<Rightarrow> int option \<Rightarrow> double option \<Rightarrow> 'd ledger \<Rightarrow> submit_outcome \<times> 'd ledger" where
  "create_transaction sender_input receiver_input amount_input s =
     (if length (accounts s) < 2 then (NeedTwoAccounts, s)
      else case sender_input of
        None \<Rightarrow> (InvalidInput, s)
      | Some sender_no \<Rightarrow>
         (case receiver_input of
            None \<Rightarrow> (InvalidInput, s)
          | Some receiver_no \<Rightarrow>
             (let accounts_list = map fst (accounts s);
                  sender_idx = sender_no - 1;
                  receiver_idx = receiver_no - 1
              in if sender_idx < 0 \<or> sender_idx \<ge> int (length accounts_list)
                   then (InvalidSenderSelection, s)
                 else if receiver_idx < 0 \<or> receiver_idx \<ge> int (length accounts_list)
                   then (InvalidReceiverSelection, s)
                 else if sender_idx = receiver_idx then (SameSenderAndReceiver, s)
                 else case amount_input of
                   None \<Rightarrow> (InvalidInput, s)
                 | Some amt \<Rightarrow>
                     if fle amt (Finite 0) then (AmountNotPositive, s)
                     else case map_of (accounts s) (accounts_list ! nat sender_idx) of
                       None \<Rightarrow> (SubmitRaised KeyError, s)
                     | Some sa \<Rightarrow>
                         if flt (balance sa) amt then (InsufficientAtSubmission, s)
                         else (TransactionAdded,
                               s\<lparr>pending_transactions := pending_transactions s @
                                    [\<lparr>sender = accounts_list ! nat sender_idx,
                                      receiver = accounts_list ! nat receiver_idx,
                                      amount = amt\<rparr>]\<rparr>))))"

text \<open>
  The handler of the "Add to Pending" button of \<^verbatim>\<open>streamlit_main.py\<close>, as a function of the
  three values it reads: \<^verbatim>\<open>sender\<close> and \<^verbatim>\<open>receiver\<close>, which the page takes from two select
  boxes, and \<^verbatim>\<open>amount\<close>, which it takes from a number input. The widgets that produce these
  values are not modelled, so the arguments range over every string and every double.
  \<^verbatim>\<open>
    if sender and receiver and amount > 0:
        if accounts[sender]["balance"] >= amount:
            pending_transactions.append(TransactionWrapper(sender, receiver, amount))
        else:
            st.error("Insufficient balance!")
    else:
        st.error("Please fill all fields with valid values.")
  \<close>
\<close>

datatype st_submit_outcome =
    FillAllFields
  | StInsufficientBalance
  | StRaised tx_error
  | StTransactionAdded

definition st_add_to_pending ::
  "string \<Rightarrow> string \<Rightarrow> double \<Rightarrow> 'd ledger \<Rightarrow> st_submit_outcome \<times> 'd ledger" where
  "st_add_to_pending sndr rcvr amt s =
     (if sndr \<noteq> [] \<and> rcvr \<noteq> [] \<and> flt (Finite 0) amt then
        (case map_of (accounts s) sndr of
           None \<Rightarrow> (StRaised KeyError, s)
         | Some sa \<Rightarrow>
             if fle amt (balance sa)
             then (StTransactionAdded,
                   s\<lparr>pending_transactions := pending_transactions s @
                        [\<lparr>sender = sndr, receiver = rcvr, amount = amt\<rparr>]\<rparr>)
             else (StInsufficientBalance, s))
      else (FillAllFields, s))"

section \<open>What the console displays as zakat due\<close>

text \<open>
  \<^verbatim>\<open>view_accounts\<close>: \<^verbatim>\<open>zakat_due = self.calculate_zakat(balance) if balance >= 1000 else 0\<close>,
  shown as \<^verbatim>\<open>"N/A"\<close> unless it is positive, and added up into \<^verbatim>\<open>total_zakat\<close>.
\<close>

definition view_zakat_due :: "double \<Rightarrow> double" where
  "view_zakat_due bal = (if fle (Finite 1000) bal then calculate_zakat bal default_rate else Finite 0)"

definition view_total_zakat :: "account_store \<Rightarrow> double" where
  "view_total_zakat accs =
     foldl (\<lambda>total_zakat p. fadd total_zakat (view_zakat_due (balance (snd p)))) (Finite 0) accs"

text \<open>
  \<^verbatim>\<open>display_statistics\<close>: \<^verbatim>\<open>total_zakat_due = sum(self.calculate_zakat(acc["balance"]) for acc in
  self.accounts.values() if acc["balance"] >= 1000)\<close>. The builtin \<^verbatim>\<open>sum\<close> is the parameter
  \<open>py_sum\<close>: how it rounds a sum of floats depends on the version of the interpreter (it adds
  from left to right, and from CPython 3.12 on it carries a correction term along).
  \<open>sum_left_to_right\<close> is the first of the two.
\<close>

definition total_zakat_due :: "(double list \<Rightarrow> double) \<Rightarrow> account_store \<Rightarrow> double" where
  "total_zakat_due py_sum accs =
     py_sum (map (\<lambda>acc. calculate_zakat (balance acc) default_rate)
                 (filter (\<lambda>acc. fle (Finite 1000) (balance acc)) (map snd accs)))"

definition sum_left_to_right :: "double list \<Rightarrow> double" where
  "sum_left_to_right xs = foldl fadd (Finite 0) xs"

section \<open>The first dashboard\<close>

text \<open>
  \<^verbatim>\<open>main.py\<close> keeps bare balances, logs transfers without roll numbers, uses \<^verbatim>\<open>Transaction\<close> of
  \<^verbatim>\<open>transaction.py\<close> (a file that is not part of the sources at hand) and mines every block
  under the fixed roll number \<^verbatim>\<open>"2023"\<close>.
\<close>

record 'd main_ledger =
  main_blockchain :: "'d blockchain"
  main_accounts :: main_account_store
  main_pending_transactions :: "transaction list"

datatype transfer_error = UnknownAccount | InvalidAmount | InsufficientBalance

text \<open>
  Modelled from the spec: \<^verbatim>\<open>Transaction.apply(accounts)\<close> (\<^verbatim>\<open>transaction.py\<close> is missing), after
  the spec's \<^verbatim>\<open>apply_transfer\<close>: "fails with UnknownAccount if either side is missing,
  InvalidAmount if amount <= 0, InsufficientBalance if sender.balance < amount. On success,
  atomically debits sender and credits receiver by exactly amount". The balances of
  \<^verbatim>\<open>main.py\<close> are doubles, so the debit is a float subtraction and the credit a float addition.
  The result is the dictionary that \<^verbatim>\<open>main.py\<close> stores back into \<^verbatim>\<open>accounts\<close>.
\<close>

definition transaction_apply ::
  "transaction \<Rightarrow> main_account_store \<Rightarrow> transfer_error + main_account_store" where
  "transaction_apply t accs =
     (case map_of accs (sender t) of
        None \<Rightarrow> Inl UnknownAccount
      | Some sb \<Rightarrow>
         (case map_of accs (receiver t) of
            None \<Rightarrow> Inl UnknownAccount
          | Some rb \<Rightarrow>
              if fle (amount t) (Finite 0) then Inl InvalidAmount
              else if flt sb (amount t) then Inl InsufficientBalance
              else Inr (AList.update (receiver t)
                          (fadd (if receiver t = sender t then fsub sb (amount t) else rb) (amount t))
                          (AList.update (sender t) (fsub sb (amount t)) accs))))"

fun main_process_transactions ::
  "transaction list \<Rightarrow> main_account_store \<Rightarrow> entry list
     \<Rightarrow> (transfer_error \<times> main_account_store) + (main_account_store \<times> entry list)" where
  "main_process_transactions [] accs transaction_records = Inr (accs, transaction_records)"
| "main_process_transactions (t # ts) accs transaction_records =
     (case transaction_apply t accs of
        Inl e \<Rightarrow> Inl (e, accs)
      | Inr accs1 \<Rightarrow>
          main_process_transactions ts accs1
            (transaction_records @ [PlainTransferRecord (sender t) (receiver t) (amount t)]))"

text \<open>\<^verbatim>\<open>process_pending_transactions\<close> of \<^verbatim>\<open>main.py\<close>; it returns \<^verbatim>\<open>True\<close> or \<^verbatim>\<open>False\<close>.\<close>

definition main_process_pending_transactions ::
  "'d digest_fn \<Rightarrow> real \<Rightarrow> 'd main_ledger \<Rightarrow> bool \<times> 'd main_ledger" where
  "main_process_pending_transactions H now s =
     (if main_pending_transactions s = [] then (False, s)
      else case main_apply_zakat_to_accounts (main_accounts s) of
        (accs1, zakat_collected) \<Rightarrow>
          (case main_process_transactions (main_pending_transactions s) accs1
                  (console_zakat_records zakat_collected) of
             Inl (e, accs2) \<Rightarrow> (False, s\<lparr>main_accounts := accs2\<rparr>)
           | Inr (accs2, transaction_records) \<Rightarrow>
               if transaction_records = [] then (False, s\<lparr>main_accounts := accs2\<rparr>)
               else case add_block H now transaction_records ''2023'' (main_blockchain s) of
                 Inl e \<Rightarrow> (False, s\<lparr>main_accounts := accs2\<rparr>)
               | Inr c \<Rightarrow>
                   (True, s\<lparr>main_blockchain := c, main_accounts := accs2,
                            main_pending_transactions := []\<rparr>)))"

section \<open>Notions used to state what mining does\<close>

text \<open>
  The transfers of a batch applied one after the other to an account store, stopping at the
  first that fails: the account part of \<open>process_transactions\<close>.
\<close>

fun apply_transfers ::
  "transaction list \<Rightarrow> account_store \<Rightarrow> (tx_error \<times> account_store) + account_store" where
  "apply_transfers [] accs = Inr accs"
| "apply_transfers (t # ts) accs =
     (case apply_to_accounts t accs of
        Inl e \<Rightarrow> Inl (e, accs)
      | Inr accs1 \<Rightarrow> apply_transfers ts accs1)"

text \<open>The record that mining logs for a transfer, with the roll numbers read from an account store.\<close>

definition transfer_record :: "account_store \<Rightarrow> transaction \<Rightarrow> entry option" where
  "transfer_record accs t =
     (case roll_of accs (sender t) of
        None \<Rightarrow> None
      | Some sender_roll \<Rightarrow>
          (case roll_of accs (receiver t) of
             None \<Rightarrow> None
           | Some receiver_roll \<Rightarrow>
               Some (TransferRecord (sender t) sender_roll (receiver t) receiver_roll (amount t))))"

text \<open>The accounts of a batch: every sender and every receiver.\<close>

definition participants :: "transaction list \<Rightarrow> string set" where
  "participants ts = set (map sender ts) \<union> set (map receiver ts)"

text \<open>What \<^verbatim>\<open>main.py\<close> keeps of an account: its balance, without the roll number.\<close>

definition bare_balances :: "account_store \<Rightarrow> main_account_store" where
  "bare_balances accs = map (\<lambda>p. (fst p, balance (snd p))) accs"

section \<open>A concrete ledger\<close>

text \<open>
  Concrete inputs on which the definitions above are evaluated further down. The digest
  function of the examples is a toy checksum over natural numbers: it tells apart every pair
  of block contents that the examples compare. \<open>acct b r\<close> is the account of roll number \<open>r\<close>
  whose balance is the double written \<open>b\<close> in decimal, \<open>transfer s r a\<close> the transfer of the
  double written \<open>a\<close>.
\<close>

definition toy_digest :: "nat digest_fn" where
  "toy_digest prev now creator entries = 2 * prev + length creator + length entries + 1"

definition acct :: "rat \<Rightarrow> string \<Rightarrow> account" where
  "acct b r = \<lparr>balance = float_of b, roll_no = r\<rparr>"

definition transfer :: "string \<Rightarrow> string \<Rightarrow> rat \<Rightarrow> transaction" where
  "transfer s r a = \<lparr>sender = s, receiver = r, amount = float_of a\<rparr>"

definition main_ledger_of :: "main_account_store \<Rightarrow> transaction list \<Rightarrow> nat main_ledger" where
  "main_ledger_of accs pending =
     \<lparr>main_blockchain = new_blockchain toy_digest 0 0 ''2023'', main_accounts = accs,
      main_pending_transactions = pending\<rparr>"

definition ledger_of :: "account_store \<Rightarrow> transaction list \<Rightarrow> nat ledger" where
  "ledger_of accs pending =
     \<lparr>blockchain = new_blockchain toy_digest 0 0 ''SYSTEM'', accounts = accs,
      pending_transactions = pending\<rparr>"

definition example_calls :: "(entry list \<times> string \<times> real) list" where
  "example_calls =
     [([TransferRecord ''A'' ''r1'' ''B'' ''r2'' (Finite 200)], ''r1'', 5),
      ([ZakatCollection (Finite 25), TransferRecord ''B'' ''r2'' ''A'' ''r1'' (Finite 10)], ''r2'', 6)]"

definition example_chain :: "nat blockchain" where
  "example_chain =
     \<lparr>genesis = \<lparr>prev_hash = 0, timestamp = 0, block_roll_no = ''SYSTEM'',
                 transactions = [GenesisMarker], hash = 8\<rparr>,
      mined = [\<lparr>prev_hash = 8, timestamp = 5, block_roll_no = ''r1'',
                transactions = [TransferRecord ''A'' ''r1'' ''B'' ''r2'' (Finite 200)], hash = 20\<rparr>,
               \<lparr>prev_hash = 20, timestamp = 6, block_roll_no = ''r2'',
                transactions = [ZakatCollection (Finite 25),
                                TransferRecord ''B'' ''r2'' ''A'' ''r1'' (Finite 10)],
                hash = 45\<rparr>]\<rparr>"

section \<open>Facts about rounding\<close>

declare power_numeral [simp del]

lemma round_half_even_of_int: "round_half_even (of_int z) = z"
  by (simp add: round_half_even_def)

lemma round_half_even_ge: "of_int a \<le> q \<Longrightarrow> a \<le> round_half_even q"
proof -
  assume "of_int a \<le> q"
  then have "a \<le> \<lfloor>q\<rfloor>" by (simp add: le_floor_iff)
  then show ?thesis by (simp add: round_half_even_def)
qed

lemma round_half_even_le: "q \<le> of_int b \<Longrightarrow> round_half_even q \<le> b"
proof (cases "q = of_int b")
  case True
  then show ?thesis by (simp add: round_half_even_of_int)
next
  case False
  assume "q \<le> of_int b"
  with False have "q < of_int b" by simp
  then have "\<lfloor>q\<rfloor> < b" by (simp add: floor_less_iff)
  then show ?thesis by (simp add: round_half_even_def)
qed

lemma below_power_bitlen:
  assumes "0 \<le> X"
  shows "X < 2 ^ nat (bitlen \<lfloor>X\<rfloor>)"
proof -
  have "\<lfloor>X\<rfloor> < 2 ^ nat (bitlen \<lfloor>X\<rfloor>)"
    using bitlen_le_iff_power[of "\<lfloor>X\<rfloor>" "bitlen \<lfloor>X\<rfloor>"] by (simp add: bitlen_nonneg)
  then have "X < of_int (2 ^ nat (bitlen \<lfloor>X\<rfloor>))"
    by (simp only: floor_less_iff)
  then show ?thesis by simp
qed

lemma ulp_scaled_pos: "0 < ulp_scaled X"
  by (simp add: ulp_scaled_def)

lemma scaled_mantissa_bound:
  assumes "0 \<le> X"
  shows "X / ulp_scaled X < 2 ^ 53"
proof -
  let ?b = "bitlen \<lfloor>X\<rfloor>"
  have "nat ?b \<le> 53 + nat (?b - 53)" by simp
  then have "(2::rat) ^ nat ?b \<le> 2 ^ (53 + nat (?b - 53))"
    by (rule power_increasing) simp
  with below_power_bitlen[OF assms] have "X < 2 ^ 53 * ulp_scaled X"
    by (simp add: ulp_scaled_def power_add)
  then show ?thesis by (simp add: pos_divide_less_eq ulp_scaled_pos)
qed

lemma round_scaled_shape:
  assumes "0 \<le> X"
  shows "\<exists>m. round_scaled X = of_int m * 2 ^ nat (bitlen \<lfloor>X\<rfloor> - 53) \<and> 0 \<le> m \<and> m \<le> 2 ^ 53"
proof -
  let ?m = "round_half_even (X / ulp_scaled X)"
  have "0 \<le> X / ulp_scaled X" using assms ulp_scaled_pos[of X] by simp
  then have "of_int 0 \<le> X / ulp_scaled X" by simp
  then have 1: "0 \<le> ?m" by (rule round_half_even_ge)
  have "X / ulp_scaled X \<le> of_int (2 ^ 53)"
    using scaled_mantissa_bound[OF assms] by simp
  then have 2: "?m \<le> 2 ^ 53" by (rule round_half_even_le)
  from 1 2 show ?thesis
    by (intro exI[of _ ?m]) (simp add: round_scaled_def ulp_scaled_def)
qed

lemma round_scaled_fixed:
  assumes "0 < m" "m \<le> 2 ^ 53"
  shows "round_scaled (of_int m * 2 ^ k) = of_int m * 2 ^ k"
proof -
  have fl: "\<lfloor>(of_int m * 2 ^ k :: rat)\<rfloor> = m * 2 ^ k"
  proof -
    have "(of_int m * 2 ^ k :: rat) = of_int (m * 2 ^ k)" by simp
    then show ?thesis by (simp only: floor_of_int)
  qed
  have bl: "bitlen (m * 2 ^ k) = bitlen m + int k"
    using assms(1) by simp
  have "(2::int) ^ 53 < 2 ^ 54" by (rule power_strict_increasing) simp_all
  with assms(2) have "m < 2 ^ 54" by (rule le_less_trans)
  then have b54: "bitlen m \<le> 54"
    using bitlen_le_iff_power[of m 54] by simp
  show ?thesis
  proof (cases "bitlen m \<le> 53")
    case True
    define k' where "k' = nat (bitlen m + int k - 53)"
    from True have le: "k' \<le> k" by (simp add: k'_def)
    from le obtain d where d: "k = k' + d" by (auto simp: le_iff_add)
    have "(of_int m * 2 ^ k :: rat) / 2 ^ k' = of_int (m * 2 ^ d)"
      by (simp add: d power_add)
    then have "round_half_even ((of_int m * 2 ^ k :: rat) / 2 ^ k') = m * 2 ^ d"
      by (simp only: round_half_even_of_int)
    moreover have "(of_int (m * 2 ^ d) :: rat) * 2 ^ k' = of_int m * 2 ^ k"
      by (simp add: d power_add)
    ultimately show ?thesis
      by (simp add: round_scaled_def ulp_scaled_def fl bl flip: k'_def)
  next
    case False
    with b54 have b: "bitlen m = 54" by simp
    then have "2 ^ (nat 54 - 1) \<le> m"
      using bitlen_ge_iff_power[of 54 m] by simp
    with assms(2) have m: "m = 2 ^ 53" by simp
    have e: "nat (bitlen m + int k - 53) = Suc k" by (simp add: b)
    have p53: "(2::rat) ^ 53 = 2 * 2 ^ 52" by (simp add: power_numeral)
    have "(of_int m * 2 ^ k :: rat) / 2 ^ Suc k = of_int (2 ^ 52)"
      by (simp add: m p53)
    then have "round_half_even ((of_int m * 2 ^ k :: rat) / 2 ^ Suc k) = 2 ^ 52"
      by (simp only: round_half_even_of_int)
    moreover have "(of_int (2 ^ 52) :: rat) * 2 ^ Suc k = of_int m * 2 ^ k"
      by (simp add: m p53)
    ultimately show ?thesis
      by (simp only: round_scaled_def ulp_scaled_def fl bl e)
  qed
qed

lemma float_of_zero: "float_of 0 = Finite 0"
  by (simp add: float_of_def round_scaled_def round_half_even_def)

lemma float_of_idem:
  assumes "float_of x = Finite y"
  shows "float_of y = Finite y"
proof -
  let ?R = "round_scaled (\<bar>x\<bar> * 2 ^ 1074)"
  from assms have R: "?R < 2 ^ 2098" and y: "y = sgn x * ?R / 2 ^ 1074"
    by (auto simp: float_of_def split: if_splits)
  from round_scaled_shape[of "\<bar>x\<bar> * 2 ^ 1074"] obtain m k where
    m: "?R = of_int m * 2 ^ k" "0 \<le> m" "m \<le> 2 ^ 53" by auto
  show ?thesis
  proof (cases "m = 0 \<or> x = 0")
    case True
    with y m have "y = 0" by auto
    then show ?thesis by (simp add: float_of_zero)
  next
    case False
    then have pos: "0 < m" and x: "x \<noteq> 0" using m(2) by auto
    then have Rpos: "0 < ?R" using m(1) by simp
    have ay: "\<bar>y\<bar> * 2 ^ 1074 = ?R"
      using Rpos x by (simp add: y abs_mult abs_sgn_eq)
    have sy: "sgn y = sgn x"
      using Rpos x by (simp add: y sgn_mult sgn_divide)
    have fx: "round_scaled ?R = ?R"
      unfolding m(1) using pos m(3) by (rule round_scaled_fixed)
    show ?thesis
      unfolding float_of_def[of y] ay fx sy using R y by simp
  qed
qed

lemma float_of_ge_one:
  assumes "1 \<le> x"
  shows "float_of x = PosInf \<or> (\<exists>y. float_of x = Finite y \<and> 1 \<le> y)"
proof -
  let ?X = "\<bar>x\<bar> * 2 ^ 1074"
  let ?b = "bitlen \<lfloor>?X\<rfloor>"
  from assms have X: "2 ^ 1074 \<le> ?X" by simp
  then have "of_int (2 ^ 1074) \<le> ?X" by simp
  then have N: "2 ^ 1074 \<le> \<lfloor>?X\<rfloor>" by (simp only: le_floor_iff)
  moreover have "(0::int) < 2 ^ 1074" by (rule zero_less_power) simp
  ultimately have Npos: "0 < \<lfloor>?X\<rfloor>" by (rule less_le_trans[rotated])
  from N have "\<not> \<lfloor>?X\<rfloor> < 2 ^ nat 1074" by simp
  then have b: "1075 \<le> ?b"
    using bitlen_le_iff_power[of "\<lfloor>?X\<rfloor>" 1074] by simp
  from bitlen_bounds[OF Npos] have "2 ^ nat (?b - 1) \<le> \<lfloor>?X\<rfloor>" by simp
  then have "(of_int (2 ^ nat (?b - 1)) :: rat) \<le> of_int \<lfloor>?X\<rfloor>" by (simp only: of_int_le_iff)
  also have "\<dots> \<le> ?X" by simp
  finally have low: "(2::rat) ^ nat (?b - 1) \<le> ?X" by simp
  have split: "nat (?b - 1) = 52 + nat (?b - 53)" using b by simp
  have "(2::rat) ^ 52 \<le> ?X / ulp_scaled ?X"
    using low by (simp add: ulp_scaled_def split power_add pos_le_divide_eq)
  then have "of_int (2 ^ 52) \<le> ?X / ulp_scaled ?X" by simp
  then have m: "2 ^ 52 \<le> round_half_even (?X / ulp_scaled ?X)" by (rule round_half_even_ge)
  then have "(of_int (2 ^ 52) :: rat) \<le> of_int (round_half_even (?X / ulp_scaled ?X))"
    by (simp only: of_int_le_iff)
  then have "(2::rat) ^ 52 * ulp_scaled ?X \<le> round_scaled ?X"
    by (simp add: round_scaled_def ulp_scaled_pos)
  moreover have "(2::rat) ^ 1074 \<le> 2 ^ 52 * ulp_scaled ?X"
  proof -
    have "(1074::nat) \<le> 52 + nat (?b - 53)" using b by simp
    then have "(2::rat) ^ 1074 \<le> 2 ^ (52 + nat (?b - 53))"
      by (simp only: power_increasing_iff[of "2::rat"]) 
    then show ?thesis by (simp add: ulp_scaled_def power_add)
  qed
  ultimately have "(2::rat) ^ 1074 \<le> round_scaled ?X" by simp
  then have "1 \<le> round_scaled ?X / 2 ^ 1074" by (simp add: pos_le_divide_eq)
  with assms show ?thesis by (simp add: float_of_def)
qed

lemma float_of_normal:
  assumes "q \<le> 1074" and "p \<le> 970"
    and "2 ^ 52 * (2 ^ p / 2 ^ q) \<le> \<bar>x\<bar>" and "\<bar>x\<bar> < 2 ^ 53 * (2 ^ p / 2 ^ q)"
  shows "float_of x =
           Finite (sgn x * (of_int (round_half_even (\<bar>x\<bar> / (2 ^ p / 2 ^ q))) * (2 ^ p / 2 ^ q)))"
proof -
  let ?X = "\<bar>x\<bar> * 2 ^ 1074"
  define j where "j = p + (1074 - q)"
  have U: "(2::rat) ^ p / 2 ^ q * 2 ^ 1074 = 2 ^ j"
    using assms(1) by (simp add: j_def power_add power_diff)
  have lo: "(2::rat) ^ (52 + j) \<le> ?X"
  proof -
    have "2 ^ 52 * (2 ^ p / 2 ^ q) * 2 ^ 1074 \<le> ?X"
      using assms(3) by (rule mult_right_mono) simp
    then show ?thesis by (simp add: power_add flip: U)
  qed
  have hi: "?X < (2::rat) ^ (53 + j)"
  proof -
    have "?X < 2 ^ 53 * (2 ^ p / 2 ^ q) * 2 ^ 1074"
      using assms(4) by (rule mult_strict_right_mono) simp
    then show ?thesis by (simp add: power_add flip: U)
  qed
  from lo have "of_int (2 ^ (52 + j)) \<le> ?X" by simp
  then have flo: "2 ^ (52 + j) \<le> \<lfloor>?X\<rfloor>" by (simp only: le_floor_iff)
  from hi have "?X < of_int (2 ^ (53 + j))" by simp
  then have fhi: "\<lfloor>?X\<rfloor> < 2 ^ (53 + j)" by (simp only: floor_less_iff)
  have "bitlen \<lfloor>?X\<rfloor> \<le> int (53 + j)"
    unfolding bitlen_le_iff_power nat_int using fhi by simp
  moreover have "nat (int (53 + j)) - 1 = 52 + j" by simp
  then have "int (53 + j) \<le> bitlen \<lfloor>?X\<rfloor>"
    unfolding bitlen_ge_iff_power using flo by simp
  ultimately have b: "bitlen \<lfloor>?X\<rfloor> = int (53 + j)" by simp
  have u: "ulp_scaled ?X = 2 ^ j" by (simp add: ulp_scaled_def b)
  have q: "?X / 2 ^ j = \<bar>x\<bar> / (2 ^ p / 2 ^ q)"
    by (simp flip: U)
  let ?m = "round_half_even (\<bar>x\<bar> / (2 ^ p / 2 ^ q))"
  have rs: "round_scaled ?X = of_int ?m * 2 ^ j"
    by (simp add: round_scaled_def u q)
  have "(0::rat) < 2 ^ p / 2 ^ q" by simp
  with assms(4) have "\<bar>x\<bar> / (2 ^ p / 2 ^ q) < 2 ^ 53"
    by (simp only: pos_divide_less_eq)
  then have "\<bar>x\<bar> / (2 ^ p / 2 ^ q) \<le> of_int (2 ^ 53)" by simp
  then have "?m \<le> 2 ^ 53" by (rule round_half_even_le)
  then have "(of_int ?m :: rat) \<le> of_int (2 ^ 53)" by (simp only: of_int_le_iff)
  then have "of_int ?m * (2::rat) ^ j \<le> 2 ^ 53 * 2 ^ j" by simp
  also have "\<dots> = 2 ^ (53 + j)" by (simp add: power_add)
  also have "\<dots> < 2 ^ 2098"
    using assms(1,2) by (intro power_strict_increasing) (simp_all add: j_def)
  finally have no: "\<not> 2 ^ 2098 \<le> round_scaled ?X" by (simp add: rs)
  have "of_int ?m * (2::rat) ^ j / 2 ^ 1074 = of_int ?m * (2 ^ p / 2 ^ q)"
    by (simp flip: U)
  then have "sgn x * (of_int ?m * (2::rat) ^ j) / 2 ^ 1074 = sgn x * (of_int ?m * (2 ^ p / 2 ^ q))"
    by (simp only: times_divide_eq_right[symmetric])
  with no show ?thesis by (simp only: float_of_def rs if_False)
qed


declare power_numeral [simp]

lemmas float_of_binades =
  float_of_zero
  float_of_normal[where p=0 and q=60] float_of_normal[where p=0 and q=59]
  float_of_normal[where p=0 and q=58] float_of_normal[where p=0 and q=57]
  float_of_normal[where p=0 and q=56] float_of_normal[where p=0 and q=55]
  float_of_normal[where p=0 and q=54] float_of_normal[where p=0 and q=53]
  float_of_normal[where p=0 and q=52] float_of_normal[where p=0 and q=51]
  float_of_normal[where p=0 and q=50] float_of_normal[where p=0 and q=49]
  float_of_normal[where p=0 and q=48] float_of_normal[where p=0 and q=47]
  float_of_normal[where p=0 and q=46] float_of_normal[where p=0 and q=45]
  float_of_normal[where p=0 and q=44] float_of_normal[where p=0 and q=43]
  float_of_normal[where p=0 and q=42] float_of_normal[where p=0 and q=41]
  float_of_normal[where p=0 and q=40] float_of_normal[where p=0 and q=39]
  float_of_normal[where p=0 and q=38]

lemma floor_rat_numeral_divide:
  "\<lfloor>numeral a / numeral b :: rat\<rfloor> = numeral a div numeral b"
  by (metis floor_divide_of_int_eq of_int_numeral)

lemmas float_eval = float_of_binades round_half_even_def floor_rat_numeral_divide fsub_def

section \<open>Facts about float arithmetic\<close>

lemma default_rate_value: "default_rate = Finite (3602879701896397 / 144115188075855872)"
  by (simp add: default_rate_def float_eval)

lemma fle_float_of_ge_one: "1 \<le> x \<Longrightarrow> fle (Finite 1) (float_of x)"
  using float_of_ge_one[of x] by auto

lemma calculate_zakat_ge_one:
  assumes "fle (Finite t) b" and "64 \<le> t"
  shows "fle (Finite 1) (calculate_zakat b default_rate)"
proof (cases b)
  case (Finite x)
  with assms have "64 \<le> x" by simp
  then have "1 \<le> x * (3602879701896397 / 144115188075855872)" by simp
  then show ?thesis
    using Finite by (simp add: calculate_zakat_def default_rate_value fle_float_of_ge_one)
next
  case PosInf
  then show ?thesis by (simp add: calculate_zakat_def default_rate_value)
next
  case NegInf
  with assms show ?thesis by simp
next
  case NaN
  with assms show ?thesis by simp
qed

lemma fadd_ge_one:
  assumes "c = Finite 0 \<or> fle (Finite 1) c" and "fle (Finite 1) z"
  shows "fle (Finite 1) (fadd c z)"
proof (cases c)
  case c: (Finite x)
  show ?thesis
  proof (cases z)
    case (Finite y)
    with c assms have "1 \<le> x + y" by auto
    with c Finite show ?thesis by (simp add: fle_float_of_ge_one)
  qed (use c assms in simp_all)
next
  case PosInf
  with assms show ?thesis by (cases z) simp_all
next
  case NegInf
  with assms show ?thesis by simp
next
  case NaN
  with assms show ?thesis by simp
qed

lemma flt_zero_iff_ge_one:
  "c = Finite 0 \<or> fle (Finite 1) c \<Longrightarrow> flt (Finite 0) c = fle (Finite 1) c"
  by (cases c) auto

lemma flt_not_fle: "flt a b \<Longrightarrow> \<not> fle b a"
  by (cases a; cases b) simp_all

lemma fadd_zero_right: "fadd (fadd a b) (Finite 0) = fadd a b"
proof (cases "fadd a b")
  case (Finite z)
  then obtain x y where "a = Finite x" "b = Finite y" "float_of (x + y) = Finite z"
    by (cases a; cases b) simp_all
  then have "float_of z = Finite z" by (simp add: float_of_idem)
  with Finite show ?thesis by simp
qed simp_all

section \<open>Facts about a single transfer\<close>






lemma apply_to_accountsE:
  assumes "apply_to_accounts t accs = Inr accs'"
  obtains sa ra accs1 where
    "map_of accs (sender t) = Some sa" "map_of accs (receiver t) = Some ra"
    "\<not> flt (balance sa) (amount t)"
    "sub_from_balance (sender t) (amount t) accs = Inr accs1"
    "add_to_balance (receiver t) (amount t) accs1 = Inr accs'"
  using assms
  by (auto simp: apply_to_accounts_def split: option.splits if_splits sum.splits)




section \<open>Facts about the levy\<close>

lemma zakat_loop_result:
  "zakat_loop th accs (visited, c, d) =
     (visited @ map (\<lambda>(n, a). (n, levied th a)) accs,
      foldl (\<lambda>c p. collect th c (balance (snd p))) c accs,
      d @ map (\<lambda>(n, a). (n, roll_no a, calculate_zakat (balance a) default_rate))
            (filter (\<lambda>(n, a). fle th (balance a)) accs))"
  by (induction accs arbitrary: visited c d) (auto simp: levied_def collect_def)

lemma map_of_levied:
  "map_of (map (\<lambda>(n, a). (n, levied th a)) accs) name = map_option (levied th) (map_of accs name)"
  by (induction accs) auto

lemma main_zakat_loop_result:
  "main_zakat_loop accs (visited, c) =
     (visited @ map (\<lambda>(n, b). (n, if fle (Finite 1000) b
                                   then fsub b (calculate_zakat b default_rate) else b)) accs,
      foldl (\<lambda>c p. collect (Finite 1000) c (snd p)) c accs)"
  by (induction accs arbitrary: visited c) (auto simp: collect_def)

lemma map_of_main_levied:
  "map_of (map (\<lambda>(n, b). (n, f b)) accs) name = map_option f (map_of accs name)"
  by (induction accs) auto

lemma collected_ge_one:
  assumes "64 \<le> t" and "c = Finite 0 \<or> fle (Finite 1) c"
  shows "(foldl (\<lambda>c p. collect (Finite t) c (balance (snd p))) c accs = Finite 0 \<or>
          fle (Finite 1) (foldl (\<lambda>c p. collect (Finite t) c (balance (snd p))) c accs)) \<and>
         fle (Finite 1) (foldl (\<lambda>c p. collect (Finite t) c (balance (snd p))) c accs) =
           (fle (Finite 1) c \<or> (\<exists>p \<in> set accs. fle (Finite t) (balance (snd p))))"
  using assms(2)
proof (induction accs arbitrary: c)
  case Nil
  then show ?case by simp
next
  case (Cons p accs)
  show ?case
  proof (cases "fle (Finite t) (balance (snd p))")
    case True
    from calculate_zakat_ge_one[OF True assms(1)] Cons.prems
    have g: "fle (Finite 1) (fadd c (calculate_zakat (balance (snd p)) default_rate))"
      by (rule fadd_ge_one[rotated])
    have s: "foldl (\<lambda>c p. collect (Finite t) c (balance (snd p))) c (p # accs) =
        foldl (\<lambda>c p. collect (Finite t) c (balance (snd p)))
          (fadd c (calculate_zakat (balance (snd p)) default_rate)) accs"
      using True by (simp add: collect_def)
    from Cons.IH[of "fadd c (calculate_zakat (balance (snd p)) default_rate)"] g True
    show ?thesis unfolding s by auto
  next
    case False
    have s: "foldl (\<lambda>c p. collect (Finite t) c (balance (snd p))) c (p # accs) =
        foldl (\<lambda>c p. collect (Finite t) c (balance (snd p))) c accs"
      using False by (simp add: collect_def)
    from Cons.IH[OF Cons.prems] False show ?thesis unfolding s by auto
  qed
qed

lemma collected_pos_iff:
  assumes "64 \<le> t"
  shows "flt (Finite 0) (foldl (\<lambda>c p. collect (Finite t) c (balance (snd p))) (Finite 0) accs) =
           (\<exists>p \<in> set accs. fle (Finite t) (balance (snd p)))"
proof -
  let ?r = "foldl (\<lambda>c p. collect (Finite t) c (balance (snd p))) (Finite 0) accs"
  have c: "(?r = Finite 0 \<or> fle (Finite 1) ?r) \<and>
           fle (Finite 1) ?r = (fle (Finite 1) (Finite 0) \<or> (\<exists>p \<in> set accs. fle (Finite t) (balance (snd p))))"
    by (rule collected_ge_one[OF assms]) simp
  from c have "flt (Finite 0) ?r = fle (Finite 1) ?r"
    by (intro flt_zero_iff_ge_one) (rule conjunct1)
  also from c have "\<dots> = (\<exists>p \<in> set accs. fle (Finite t) (balance (snd p)))"
    by (simp del: foldl_Cons)
  finally show ?thesis .
qed

section \<open>Facts about the loop over the pending transactions\<close>

lemma sub_from_balance_roll_of:
  "sub_from_balance name amt accs = Inr accs' \<Longrightarrow> roll_of accs' = roll_of accs"
  by (auto simp: sub_from_balance_def roll_of_def update_conv' fun_eq_iff split: option.splits)

lemma add_to_balance_roll_of:
  "add_to_balance name amt accs = Inr accs' \<Longrightarrow> roll_of accs' = roll_of accs"
  by (auto simp: add_to_balance_def roll_of_def update_conv' fun_eq_iff split: option.splits)

lemma apply_to_accounts_roll_of:
  assumes "apply_to_accounts t accs = Inr accs'"
  shows "roll_of accs' = roll_of accs"
proof -
  from assms obtain accs1 where
    "sub_from_balance (sender t) (amount t) accs = Inr accs1"
    "add_to_balance (receiver t) (amount t) accs1 = Inr accs'"
    by (rule apply_to_accountsE)
  then show ?thesis by (simp add: sub_from_balance_roll_of add_to_balance_roll_of)
qed

lemma roll_of_levied:
  "roll_of (map (\<lambda>(n, a). (n, levied th a)) accs) = roll_of accs"
proof
  fix name
  have "roll_no (levied th a) = roll_no a" for a by (simp add: levied_def)
  then show "roll_of (map (\<lambda>(n, a). (n, levied th a)) accs) name = roll_of accs name"
    by (cases "map_of accs name") (simp_all add: roll_of_def map_of_levied)
qed

lemma apply_transfers_roll_of:
  "apply_transfers ts accs = Inr accs' \<Longrightarrow> roll_of accs' = roll_of accs"
proof (induction ts arbitrary: accs)
  case Nil
  then show ?case by simp
next
  case (Cons t ts)
  then show ?case
    by (auto split: sum.splits dest: apply_to_accounts_roll_of)
qed

lemma apply_to_accounts_present:
  assumes "apply_to_accounts t accs = Inr accs'"
  shows "\<exists>sa ra. map_of accs' (sender t) = Some sa \<and> map_of accs' (receiver t) = Some ra \<and>
           roll_of accs (sender t) = Some (roll_no sa) \<and> roll_of accs (receiver t) = Some (roll_no ra)"
proof -
  from assms obtain sa ra where
    "map_of accs (sender t) = Some sa" "map_of accs (receiver t) = Some ra"
    by (rule apply_to_accountsE)
  then have "roll_of accs' (sender t) = Some (roll_no sa)" "roll_of accs' (receiver t) = Some (roll_no ra)"
    by (simp_all add: roll_of_def apply_to_accounts_roll_of[OF assms])
  then obtain sa' ra' where
    "map_of accs' (sender t) = Some sa'" "roll_no sa' = roll_no sa"
    "map_of accs' (receiver t) = Some ra'" "roll_no ra' = roll_no ra"
    by (auto simp: roll_of_def)
  then show ?thesis
    by (simp add: roll_of_def flip: apply_to_accounts_roll_of[OF assms])
qed

lemma process_transactions_accounts:
  "map_sum id fst (process_transactions ts accs recs) = apply_transfers ts accs"
proof (induction ts arbitrary: accs recs)
  case Nil
  show ?case by simp
next
  case (Cons t ts)
  show ?case
  proof (cases "apply_to_accounts t accs")
    case (Inl e)
    then show ?thesis by simp
  next
    case (Inr accs1)
    from apply_to_accounts_present[OF Inr] obtain sa ra where
      "map_of accs1 (sender t) = Some sa" "map_of accs1 (receiver t) = Some ra" by blast
    with Inr Cons.IH[of accs1] show ?thesis by simp
  qed
qed

lemma process_transactions_Inl:
  "apply_transfers ts accs = Inl x \<Longrightarrow> process_transactions ts accs recs = Inl x"
  using process_transactions_accounts[of ts accs recs]
  by (cases "process_transactions ts accs recs") auto

lemma process_transactions_Inr:
  "process_transactions ts accs recs = Inr (accs', recs') \<Longrightarrow> apply_transfers ts accs = Inr accs'"
  using process_transactions_accounts[of ts accs recs] by simp

lemma process_transactions_records:
  "process_transactions ts accs recs = Inr (accs', recs') \<Longrightarrow>
     \<exists>new. recs' = recs @ new \<and> map Some new = map (transfer_record accs) ts"
proof (induction ts arbitrary: accs recs)
  case Nil
  then show ?case by simp
next
  case (Cons t ts)
  from Cons.prems obtain accs1 where a: "apply_to_accounts t accs = Inr accs1"
    by (auto split: sum.splits)
  from apply_to_accounts_present[OF a] obtain sa ra where
    p: "map_of accs1 (sender t) = Some sa" "map_of accs1 (receiver t) = Some ra"
       "roll_of accs (sender t) = Some (roll_no sa)" "roll_of accs (receiver t) = Some (roll_no ra)"
    by blast
  let ?r = "TransferRecord (sender t) (roll_no sa) (receiver t) (roll_no ra) (amount t)"
  from Cons.prems a p have "process_transactions ts accs1 (recs @ [?r]) = Inr (accs', recs')"
    by simp
  from Cons.IH[OF this] obtain new where
    n: "recs' = (recs @ [?r]) @ new" "map Some new = map (transfer_record accs1) ts" by blast
  have "transfer_record accs1 = transfer_record accs"
    by (rule ext)
       (simp add: transfer_record_def apply_to_accounts_roll_of[OF a] cong: option.case_cong)
  moreover have "transfer_record accs t = Some ?r"
    using p by (simp add: transfer_record_def)
  ultimately show ?case using n by (intro exI[of _ "?r # new"]) simp
qed

lemma apply_transfers_append_fail:
  "apply_transfers pre accs = Inr accs1 \<Longrightarrow> apply_to_accounts t accs1 = Inl e \<Longrightarrow>
     apply_transfers (pre @ t # post) accs = Inl (e, accs1)"
  by (induction pre arbitrary: accs) (auto split: sum.splits)

section \<open>Facts about mining\<close>

lemma tail_appended: "tail (c\<lparr>mined := mined c @ [b]\<rparr>) = b"
  by (simp add: tail_def chain_def)

lemma chain_appended: "chain (c\<lparr>mined := mined c @ [b]\<rparr>) = chain c @ [b]"
  by (simp add: chain_def)

lemma commit_block_accounts: "accounts (snd (commit_block H now s accs recs)) = accs"
  by (simp add: commit_block_def split: sum.splits)

lemma commit_block_mined:
  assumes "pending_transactions s = t # ts"
    and "fst (commit_block H now s accs recs) = BlockMined"
  shows "\<exists>a. map_of accs (sender t) = Some a \<and>
           blockchain (snd (commit_block H now s accs recs)) =
             (blockchain s)\<lparr>mined := mined (blockchain s) @
                [new_block H (hash (tail (blockchain s))) now (roll_no a) recs]\<rparr>"
  using assms
  by (auto simp: commit_block_def miner_roll_def add_block_def split: if_splits option.splits)

text \<open>The common shape of the two mining functions after the levy.\<close>

lemma mined_after_levy:
  assumes p: "pending_transactions s = t # ts"
    and m: "fst (case process_transactions (pending_transactions s) lev recs0 of
               Inl (e, accs2) \<Rightarrow> (TransactionFailed e, s\<lparr>accounts := accs2\<rparr>)
             | Inr (accs2, recs) \<Rightarrow> commit_block H now s accs2 recs) = BlockMined"
  shows "\<exists>new r. map Some new = map (transfer_record lev) (t # ts) \<and>
           roll_of lev (sender t) = Some r \<and>
           blockchain (snd (case process_transactions (pending_transactions s) lev recs0 of
               Inl (e, accs2) \<Rightarrow> (TransactionFailed e, s\<lparr>accounts := accs2\<rparr>)
             | Inr (accs2, recs) \<Rightarrow> commit_block H now s accs2 recs)) =
             (blockchain s)\<lparr>mined := mined (blockchain s) @
                [new_block H (hash (tail (blockchain s))) now r (recs0 @ new)]\<rparr>"
proof (cases "process_transactions (pending_transactions s) lev recs0")
  case (Inl x)
  with m show ?thesis by (cases x) simp
next
  case (Inr y)
  obtain accs2 recs where y: "y = (accs2, recs)" by (cases y)
  with Inr m have c: "fst (commit_block H now s accs2 recs) = BlockMined" by simp
  from commit_block_mined[OF p c] obtain a where
    a: "map_of accs2 (sender t) = Some a"
       "blockchain (snd (commit_block H now s accs2 recs)) =
          (blockchain s)\<lparr>mined := mined (blockchain s) @
             [new_block H (hash (tail (blockchain s))) now (roll_no a) recs]\<rparr>" by blast
  from Inr y p have pr: "process_transactions (t # ts) lev recs0 = Inr (accs2, recs)" by simp
  from process_transactions_records[OF pr] obtain new where
    n: "recs = recs0 @ new" "map Some new = map (transfer_record lev) (t # ts)" by blast
  have "roll_of accs2 = roll_of lev"
    using process_transactions_Inr[OF pr] by (rule apply_transfers_roll_of)
  with a have "roll_of lev (sender t) = Some (roll_no a)"
    by (simp add: roll_of_def flip: \<open>roll_of accs2 = roll_of lev\<close>)
  with a n Inr y show ?thesis
    by (intro exI[of _ new] exI[of _ "roll_no a"]) simp
qed

lemma transfer_record_levied:
  "transfer_record (map (\<lambda>(n, a). (n, levied th a)) accs) = transfer_record accs"
  by (rule ext) (simp add: transfer_record_def roll_of_levied cong: option.case_cong)

lemma console_mined:
  assumes "fst (mine_block H now s) = BlockMined"
  shows "\<exists>t ts new r. pending_transactions s = t # ts \<and>
           map Some new = map (transfer_record (accounts s)) (pending_transactions s) \<and>
           roll_of (accounts s) (sender t) = Some r \<and>
           blockchain (snd (mine_block H now s)) =
             (blockchain s)\<lparr>mined := mined (blockchain s) @
                [new_block H (hash (tail (blockchain s))) now r
                   (console_zakat_records (fst (snd (apply_zakat_to_accounts (accounts s)))) @ new)]\<rparr>"
proof -
  from assms obtain t ts where p: "pending_transactions s = t # ts"
    by (cases "pending_transactions s") (auto simp: mine_block_def)
  obtain lev c d where z: "apply_zakat_to_accounts (accounts s) = (lev, c, d)"
    by (cases "apply_zakat_to_accounts (accounts s)") auto
  then have lev: "lev = map (\<lambda>(n, a). (n, levied (Finite 100) a)) (accounts s)"
    by (simp add: apply_zakat_to_accounts_def zakat_loop_result)
  have e: "mine_block H now s =
      (case process_transactions (pending_transactions s) lev (console_zakat_records c) of
               Inl (e, accs2) \<Rightarrow> (TransactionFailed e, s\<lparr>accounts := accs2\<rparr>)
             | Inr (accs2, recs) \<Rightarrow> commit_block H now s accs2 recs)"
    using p z by (simp add: mine_block_def)
  from mined_after_levy[OF p assms[unfolded e]] p z show ?thesis
    unfolding e lev by (simp add: transfer_record_levied roll_of_levied)
qed

lemma st_mined:
  assumes "fst (st_process_pending_transactions H now s) = BlockMined"
  shows "\<exists>t ts new r. pending_transactions s = t # ts \<and>
           map Some new = map (transfer_record (accounts s)) (pending_transactions s) \<and>
           roll_of (accounts s) (sender t) = Some r \<and>
           blockchain (snd (st_process_pending_transactions H now s)) =
             (blockchain s)\<lparr>mined := mined (blockchain s) @
                [new_block H (hash (tail (blockchain s))) now r
                   (st_zakat_records (fst (snd (st_apply_zakat_to_accounts (accounts s))))
                      (snd (snd (st_apply_zakat_to_accounts (accounts s)))) @ new)]\<rparr>"
proof -
  from assms obtain t ts where p: "pending_transactions s = t # ts"
    by (cases "pending_transactions s") (auto simp: st_process_pending_transactions_def)
  obtain lev c d where z: "st_apply_zakat_to_accounts (accounts s) = (lev, c, d)"
    by (cases "st_apply_zakat_to_accounts (accounts s)") auto
  then have lev: "lev = map (\<lambda>(n, a). (n, levied (Finite 1000) a)) (accounts s)"
    by (simp add: st_apply_zakat_to_accounts_def zakat_loop_result)
  have e: "st_process_pending_transactions H now s =
      (case process_transactions (pending_transactions s) lev (st_zakat_records c d) of
               Inl (e, accs2) \<Rightarrow> (TransactionFailed e, s\<lparr>accounts := accs2\<rparr>)
             | Inr (accs2, recs) \<Rightarrow> commit_block H now s accs2 recs)"
    using p z by (simp add: st_process_pending_transactions_def)
  from mined_after_levy[OF p assms[unfolded e]] p z show ?thesis
    unfolding e lev by (simp add: transfer_record_levied roll_of_levied)
qed

lemma main_mined:
  assumes "fst (main_process_pending_transactions H now m)"
  shows "\<exists>recs. main_blockchain (snd (main_process_pending_transactions H now m)) =
             (main_blockchain m)\<lparr>mined := mined (main_blockchain m) @
                [new_block H (hash (tail (main_blockchain m))) now ''2023'' recs]\<rparr>"
  using assms
  by (auto simp: main_process_pending_transactions_def add_block_def
           split: if_splits prod.splits sum.splits)

lemma console_collected_pos:
  "flt (Finite 0) (fst (snd (apply_zakat_to_accounts accs))) =
     (\<exists>p \<in> set accs. fle (Finite 100) (balance (snd p)))"
  by (simp add: apply_zakat_to_accounts_def zakat_loop_result collected_pos_iff)

lemma st_collected_pos:
  "flt (Finite 0) (fst (snd (st_apply_zakat_to_accounts accs))) =
     (\<exists>p \<in> set accs. fle (Finite 1000) (balance (snd p)))"
  by (simp add: st_apply_zakat_to_accounts_def zakat_loop_result collected_pos_iff)

lemma st_details:
  "snd (snd (st_apply_zakat_to_accounts accs)) =
     map (\<lambda>(n, a). (n, roll_no a, fmul (balance a) (float_of (25 / 1000))))
         (filter (\<lambda>(n, a). fle (Finite 1000) (balance a)) accs)"
  by (simp add: st_apply_zakat_to_accounts_def zakat_loop_result calculate_zakat_def default_rate_def)

section \<open>Facts for the console's displays\<close>

lemma sub_from_balance_other:
  "sub_from_balance n amt accs = Inr accs' \<Longrightarrow> name \<noteq> n \<Longrightarrow> map_of accs' name = map_of accs name"
  by (auto simp: sub_from_balance_def update_conv' split: option.splits)

lemma add_to_balance_other:
  "add_to_balance n amt accs = Inr accs' \<Longrightarrow> name \<noteq> n \<Longrightarrow> map_of accs' name = map_of accs name"
  by (auto simp: add_to_balance_def update_conv' split: option.splits)

lemma apply_to_accounts_other:
  assumes "apply_to_accounts t accs = Inr accs'" "name \<noteq> sender t" "name \<noteq> receiver t"
  shows "map_of accs' name = map_of accs name"
proof -
  from assms(1) obtain accs1 where
    "sub_from_balance (sender t) (amount t) accs = Inr accs1"
    "add_to_balance (receiver t) (amount t) accs1 = Inr accs'"
    by (rule apply_to_accountsE)
  with assms(2,3) show ?thesis by (simp add: sub_from_balance_other add_to_balance_other)
qed

lemma apply_transfers_other:
  "name \<notin> participants ts \<Longrightarrow>
     map_of (case apply_transfers ts accs of Inl (e, a) \<Rightarrow> a | Inr a \<Rightarrow> a) name = map_of accs name"
proof (induction ts arbitrary: accs)
  case Nil
  show ?case by simp
next
  case (Cons t ts)
  then have n: "name \<noteq> sender t" "name \<noteq> receiver t" "name \<notin> participants ts"
    by (auto simp: participants_def)
  show ?case
  proof (cases "apply_to_accounts t accs")
    case (Inl e)
    then show ?thesis by simp
  next
    case (Inr accs1)
    with Cons.IH[OF n(3), of accs1] apply_to_accounts_other[OF Inr n(1,2)] show ?thesis by simp
  qed
qed

lemma mine_block_accounts:
  assumes "pending_transactions s \<noteq> []"
  shows "accounts (snd (mine_block H now s)) =
     (case apply_transfers (pending_transactions s) (fst (apply_zakat_to_accounts (accounts s))) of
        Inl (e, a) \<Rightarrow> a | Inr a \<Rightarrow> a)"
proof -
  obtain lev c d where z: "apply_zakat_to_accounts (accounts s) = (lev, c, d)"
    by (cases "apply_zakat_to_accounts (accounts s)") auto
  show ?thesis
  proof (cases "process_transactions (pending_transactions s) lev (console_zakat_records c)")
    case (Inl x)
    obtain e a where x: "x = (e, a)" by (cases x)
    from Inl have "apply_transfers (pending_transactions s) lev = Inl x"
      using process_transactions_accounts[of "pending_transactions s" lev "console_zakat_records c"]
      by simp
    with Inl x z assms show ?thesis by (simp add: mine_block_def)
  next
    case (Inr y)
    obtain a r where y: "y = (a, r)" by (cases y)
    from Inr y have "apply_transfers (pending_transactions s) lev = Inr a"
      by (simp add: process_transactions_Inr)
    with Inr y z assms show ?thesis by (simp add: mine_block_def commit_block_accounts)
  qed
qed

lemma foldl_view_remove1:
  assumes "view_zakat_due (balance (snd e)) = Finite 0" and "e \<in> set accs"
    and "t = Finite 0 \<or> (\<exists>a b. t = fadd a b)"
  shows "foldl (\<lambda>total_zakat p. fadd total_zakat (view_zakat_due (balance (snd p)))) t (remove1 e accs)
       = foldl (\<lambda>total_zakat p. fadd total_zakat (view_zakat_due (balance (snd p)))) t accs"
  using assms(2,3)
proof (induction accs arbitrary: t)
  case Nil
  then show ?case by simp
next
  case (Cons p accs)
  show ?case
  proof (cases "p = e")
    case True
    from Cons.prems(2) have "fadd t (Finite 0) = t"
      by (auto simp: fadd_zero_right float_of_zero)
    with True assms(1) show ?thesis by simp
  next
    case False
    with Cons.prems(1) have "e \<in> set accs" by simp
    from Cons.IH[OF this, of "fadd t (view_zakat_due (balance (snd p)))"] False
    show ?thesis by auto
  qed
qed

lemma view_total_zakat_remove1:
  "view_zakat_due (balance (snd e)) = Finite 0 \<Longrightarrow> e \<in> set accs \<Longrightarrow>
     view_total_zakat (remove1 e accs) = view_total_zakat accs"
  by (simp add: view_total_zakat_def foldl_view_remove1)

lemma total_zakat_due_remove1:
  "\<not> fle (Finite 1000) (balance (snd e)) \<Longrightarrow>
     total_zakat_due py_sum (remove1 e accs) = total_zakat_due py_sum accs"
proof -
  assume n: "\<not> fle (Finite 1000) (balance (snd e))"
  have "filter (\<lambda>acc. fle (Finite 1000) (balance acc)) (map snd (remove1 e accs))
      = filter (\<lambda>acc. fle (Finite 1000) (balance acc)) (map snd accs)"
    using n by (induction accs) auto
  then show ?thesis by (simp add: total_zakat_due_def)
qed

section \<open>Facts about the chain\<close>

lemma compute_hash_new_block:
  "compute_hash H (new_block H prev now creator entries) = hash (new_block H prev now creator entries)"
  by (simp add: compute_hash_def new_block_def)

lemma first_invalid_from_snoc:
  "first_invalid_from H i bs = None \<Longrightarrow> bs \<noteq> [] \<Longrightarrow> compute_hash H b = hash b \<Longrightarrow>
     prev_hash b = hash (last bs) \<Longrightarrow> first_invalid_from H i (bs @ [b]) = None"
proof (induction H i bs rule: first_invalid_from.induct)
  case (1 H i)
  then show ?case by simp
next
  case (2 H i b0)
  then show ?case by (simp split: if_splits)
next
  case (3 H i b0 b1 bs)
  then show ?case by (simp split: if_splits)
qed

lemma first_invalid_from_nth:
  "first_invalid_from H k bs = None \<Longrightarrow> i < length bs \<Longrightarrow> compute_hash H (bs ! i) = hash (bs ! i)"
proof (induction H k bs arbitrary: i rule: first_invalid_from.induct)
  case (1 H k)
  then show ?case by simp
next
  case (2 H k b)
  then show ?case by (simp split: if_splits)
next
  case (3 H k b b' bs)
  then show ?case by (cases i) (simp_all split: if_splits)
qed

lemma first_invalid_from_head:
  "compute_hash H b \<noteq> hash b \<Longrightarrow> first_invalid_from H k (b # bs) = Some k"
  by (cases bs) simp_all

lemma first_invalid_from_update:
  "first_invalid_from H k bs = None \<Longrightarrow> i < length bs \<Longrightarrow> prev_hash b' = prev_hash (bs ! i) \<Longrightarrow>
     compute_hash H b' \<noteq> hash b' \<Longrightarrow> first_invalid_from H k (bs[i := b']) = Some (k + i)"
proof (induction H k bs arbitrary: i rule: first_invalid_from.induct)
  case (1 H k)
  then show ?case by simp
next
  case (2 H k b)
  then show ?case by simp
next
  case (3 H k b c bs)
  show ?case
  proof (cases i)
    case 0
    with "3.prems" show ?thesis by simp
  next
    case (Suc j)
    from "3.prems"(1) have ok: "compute_hash H b = hash b" "prev_hash c = compute_hash H b"
      and rest: "first_invalid_from H (Suc k) (c # bs) = None"
      by (simp_all split: if_splits)
    from "3.prems" Suc have j: "j < length (c # bs)" "prev_hash b' = prev_hash ((c # bs) ! j)"
      by simp_all
    from ok have "first_invalid_from H (Suc k) ((c # bs)[j := b']) = Some (Suc k + j)"
      using "3.IH"[OF _ _ rest j "3.prems"(4)] by simp
    moreover obtain c' bs' where u: "(c # bs)[j := b'] = c' # bs'" "prev_hash c' = prev_hash c"
      using j(2) by (cases j) simp_all
    ultimately show ?thesis using ok Suc by simp
  qed
qed

lemma add_block_valid:
  assumes "add_block H now entries creator c = Inr c'"
    and "first_invalid_from H 0 (chain c) = None"
  shows "first_invalid_from H 0 (chain c') = None"
proof -
  from assms(1) have c': "chain c' = chain c @ [new_block H (hash (tail c)) now creator entries]"
    by (auto simp: add_block_def chain_def split: if_splits)
  show ?thesis unfolding c'
  proof (rule first_invalid_from_snoc[OF assms(2)])
    show "chain c \<noteq> []" by (simp add: chain_def)
    show "compute_hash H (new_block H (hash (tail c)) now creator entries)
            = hash (new_block H (hash (tail c)) now creator entries)"
      by (rule compute_hash_new_block)
    show "prev_hash (new_block H (hash (tail c)) now creator entries) = hash (last (chain c))"
      by (simp add: new_block_def tail_def)
  qed
qed

lemma add_blocks_valid:
  "add_blocks H calls c = Inr c' \<Longrightarrow> first_invalid_from H 0 (chain c) = None \<Longrightarrow>
     first_invalid_from H 0 (chain c') = None"
proof (induction H calls c rule: add_blocks.induct)
  case (1 H c)
  then show ?case by simp
next
  case (2 H entries creator now calls c)
  then show ?case by (auto split: sum.splits dest: add_block_valid)
qed

lemma new_blockchain_valid: "first_invalid_from H 0 (chain (new_blockchain H sentinel now creator)) = None"
  by (simp add: new_blockchain_def chain_def compute_hash_new_block)


section \<open>Facts about submission\<close>










lemmas example_defs = acct_def transfer_def ledger_of_def main_ledger_of_def toy_digest_def

lemmas mining_defs = mine_block_def st_process_pending_transactions_def commit_block_def
  apply_zakat_to_accounts_def st_apply_zakat_to_accounts_def console_zakat_records_def
  st_zakat_records_def miner_roll_def add_block_def new_block_def new_blockchain_def tail_def chain_def
  apply_to_accounts_def sub_from_balance_def add_to_balance_def calculate_zakat_def default_rate_def
  main_process_pending_transactions_def main_apply_zakat_to_accounts_def transaction_apply_def

section \<open>C2: what a transfer does to the balances\<close>




section \<open>C3: the levy\<close>

text \<open>
  Claim C3 says that an account whose balance \<open>b\<close> is at least the threshold ends with balance
  exactly \<open>b * (1 - r)\<close>. The program computes \<^verbatim>\<open>balance -= balance * 0.025\<close> in floats. In the
  console, an account holding 104 ends with the double 101.4, while the float expression
  \<^verbatim>\<open>104.0 * (1 - 0.025)\<close> is the double 101.39999999999999; and an account holding the double
  written 199.83 ends with the double 194.83425, which is not the double nearest to the product
  of its balance and \<open>1 - 1/40\<close> (that is the next double, 194.83425000000003), let alone the
  product itself.
\<close>

theorem levy_is_not_the_product:
  "map_of (fst (apply_zakat_to_accounts [(''A'', acct 104 ''r1'')])) ''A'' = Some (acct 101.4 ''r1'') \<and>
   fmul (float_of 104) (fsub (Finite 1) (float_of 0.025)) = float_of 101.39999999999999 \<and>
   float_of 101.4 \<noteq> float_of 101.39999999999999 \<and>
   balance (acct 199.83 ''r2'') = Finite (7030893074511299 / 35184372088832) \<and>
   map_of (fst (apply_zakat_to_accounts [(''B'', acct 199.83 ''r2'')])) ''B''
     = Some \<lparr>balance = Finite (1713780186912129 / 8796093022208), roll_no = ''r2''\<rparr> \<and>
   float_of (7030893074511299 / 35184372088832 * (1 - 1 / 40))
     = Finite (6855120747648517 / 35184372088832) \<and>
   (1713780186912129 / 8796093022208 :: rat) \<noteq> 6855120747648517 / 35184372088832 \<and>
   (1713780186912129 / 8796093022208 :: rat) \<noteq> 7030893074511299 / 35184372088832 * (1 - 1 / 40)"
  by (simp add: apply_zakat_to_accounts_def calculate_zakat_def default_rate_def example_defs float_eval)

text \<open>
  Claim C3 as amended. For every tax assessment (the rate is the double written 0.025; the
  threshold is 100 in the console and 1000 in the two dashboards): every account whose balance
  \<open>b\<close> before the assessment satisfies \<^verbatim>\<open>b >= threshold\<close> ends with the double that the float
  expression \<^verbatim>\<open>b - b * 0.025\<close> gives (the product is rounded, then the difference is rounded),
  and every other account (a balance below the threshold, or NaN) is left as it was.
\<close>

theorem levy_in_float_arithmetic:
  "(map_of accs name = Some a \<longrightarrow>
      map_of (fst (apply_zakat_to_accounts accs)) name =
        Some (if fle (Finite 100) (balance a)
              then a\<lparr>balance := fsub (balance a) (fmul (balance a) (float_of (25 / 1000)))\<rparr> else a)) \<and>
   (map_of accs name = Some a \<longrightarrow>
      map_of (fst (st_apply_zakat_to_accounts accs)) name =
        Some (if fle (Finite 1000) (balance a)
              then a\<lparr>balance := fsub (balance a) (fmul (balance a) (float_of (25 / 1000)))\<rparr> else a)) \<and>
   (map_of maccs name = Some b \<longrightarrow>
      map_of (fst (main_apply_zakat_to_accounts maccs)) name =
        Some (if fle (Finite 1000) b then fsub b (fmul b (float_of (25 / 1000))) else b))"
proof -
  have l: "levied th a =
      (if fle th (balance a)
       then a\<lparr>balance := fsub (balance a) (fmul (balance a) (float_of (25 / 1000)))\<rparr> else a)"
    for th
    by (simp add: levied_def calculate_zakat_def default_rate_def)
  show ?thesis
    unfolding apply_zakat_to_accounts_def st_apply_zakat_to_accounts_def
      main_apply_zakat_to_accounts_def zakat_loop_result main_zakat_loop_result
    using l by (simp add: map_of_levied map_of_main_levied calculate_zakat_def default_rate_def)
qed

theorem levy_in_float_arithmetic_witness:
  "map_of [(''A'', acct 1000 ''r1''), (''B'', acct 500 ''r2'')] ''A'' = Some (acct 1000 ''r1'') \<and>
   map_of (fst (apply_zakat_to_accounts [(''A'', acct 1000 ''r1''), (''B'', acct 500 ''r2'')])) ''A''
     = Some (acct 975 ''r1'') \<and>
   map_of (fst (st_apply_zakat_to_accounts [(''A'', acct 1000 ''r1''), (''B'', acct 500 ''r2'')])) ''A''
     = Some (acct 975 ''r1'') \<and>
   map_of [(''A'', Finite 1000), (''B'', Finite 500)] ''A'' = Some (Finite 1000) \<and>
   map_of (fst (main_apply_zakat_to_accounts [(''A'', Finite 1000), (''B'', Finite 500)])) ''A''
     = Some (Finite 975) \<and>
   map_of [(''A'', acct 1000 ''r1''), (''B'', acct 500 ''r2'')] ''B'' = Some (acct 500 ''r2'') \<and>
   map_of (fst (apply_zakat_to_accounts [(''A'', acct 1000 ''r1''), (''B'', acct 500 ''r2'')])) ''B''
     = Some (acct 487.5 ''r2'') \<and>
   map_of (fst (st_apply_zakat_to_accounts [(''A'', acct 1000 ''r1''), (''B'', acct 500 ''r2'')])) ''B''
     = Some (acct 500 ''r2'') \<and>
   map_of [(''A'', Finite 1000), (''B'', Finite 500)] ''B'' = Some (Finite 500) \<and>
   map_of (fst (main_apply_zakat_to_accounts [(''A'', Finite 1000), (''B'', Finite 500)])) ''B''
     = Some (Finite 500)"
  using levy_in_float_arithmetic[of "[(''A'', acct 1000 ''r1''), (''B'', acct 500 ''r2'')]" "''A''"
          "acct 1000 ''r1''" "[(''A'', Finite 1000), (''B'', Finite 500)]" "Finite 1000"]
        levy_in_float_arithmetic[of "[(''A'', acct 1000 ''r1''), (''B'', acct 500 ''r2'')]" "''B''"
          "acct 500 ''r2''" "[(''A'', Finite 1000), (''B'', Finite 500)]" "Finite 500"]
  by (simp add: example_defs float_eval)

section \<open>C1: a failing transfer during mining\<close>

text \<open>
  Claim C1 says that a mining invocation in which the k-th pending transfer fails aborts
  atomically: no balance mutation of that invocation remains, the pending queue is unchanged
  and no block is appended. The code has no rollback: in the ledger below the second transfer
  fails, and afterwards the levy on A and the first transfer are still in the balances.
\<close>

theorem failed_mining_counterexample:
  "fst (mine_block toy_digest 5
      (ledger_of [(''A'', acct 1000 ''r1''), (''B'', acct 50 ''r2'')]
                 [transfer ''A'' ''B'' 200, transfer ''B'' ''A'' 5000]))
     = TransactionFailed Insufficient \<and>
   accounts (snd (mine_block toy_digest 5
      (ledger_of [(''A'', acct 1000 ''r1''), (''B'', acct 50 ''r2'')]
                 [transfer ''A'' ''B'' 200, transfer ''B'' ''A'' 5000])))
     = [(''A'', acct 775 ''r1''), (''B'', acct 250 ''r2'')] \<and>
   accounts (snd (mine_block toy_digest 5
      (ledger_of [(''A'', acct 1000 ''r1''), (''B'', acct 50 ''r2'')]
                 [transfer ''A'' ''B'' 200, transfer ''B'' ''A'' 5000])))
     \<noteq> accounts (ledger_of [(''A'', acct 1000 ''r1''), (''B'', acct 50 ''r2'')]
                 [transfer ''A'' ''B'' 200, transfer ''B'' ''A'' 5000])"
  by (simp add: mining_defs example_defs float_eval)

text \<open>
  Claim C1 as amended. When the k-th pending transfer fails to apply, mining stops there: no
  block is appended and the pending queue is unchanged, and the accounts are left as the levy
  and the transfers 1..k-1 of that invocation made them (the failing transfer itself changes
  nothing). This holds in the console and in \<^verbatim>\<open>streamlit_main.py\<close>.
\<close>

theorem failed_mining_is_not_rolled_back:
  "(pending_transactions s = pre @ t # post \<and>
    apply_transfers pre (fst (apply_zakat_to_accounts (accounts s))) = Inr accs1 \<and>
    apply_to_accounts t accs1 = Inl e \<longrightarrow>
      mine_block H now s = (TransactionFailed e, s\<lparr>accounts := accs1\<rparr>)) \<and>
   (pending_transactions s = pre @ t # post \<and>
    apply_transfers pre (fst (st_apply_zakat_to_accounts (accounts s))) = Inr accs2 \<and>
    apply_to_accounts t accs2 = Inl e' \<longrightarrow>
      st_process_pending_transactions H now s = (TransactionFailed e', s\<lparr>accounts := accs2\<rparr>))"
proof (intro conjI impI)
  assume a: "pending_transactions s = pre @ t # post \<and>
    apply_transfers pre (fst (apply_zakat_to_accounts (accounts s))) = Inr accs1 \<and>
    apply_to_accounts t accs1 = Inl e"
  obtain lev c d where z: "apply_zakat_to_accounts (accounts s) = (lev, c, d)"
    by (cases "apply_zakat_to_accounts (accounts s)") auto
  with a have "apply_transfers (pending_transactions s) lev = Inl (e, accs1)"
    by (simp add: apply_transfers_append_fail)
  then have "process_transactions (pending_transactions s) lev (console_zakat_records c) = Inl (e, accs1)"
    by (rule process_transactions_Inl)
  with a z show "mine_block H now s = (TransactionFailed e, s\<lparr>accounts := accs1\<rparr>)"
    by (simp add: mine_block_def)
next
  assume a: "pending_transactions s = pre @ t # post \<and>
    apply_transfers pre (fst (st_apply_zakat_to_accounts (accounts s))) = Inr accs2 \<and>
    apply_to_accounts t accs2 = Inl e'"
  obtain lev c d where z: "st_apply_zakat_to_accounts (accounts s) = (lev, c, d)"
    by (cases "st_apply_zakat_to_accounts (accounts s)") auto
  with a have "apply_transfers (pending_transactions s) lev = Inl (e', accs2)"
    by (simp add: apply_transfers_append_fail)
  then have "process_transactions (pending_transactions s) lev (st_zakat_records c d) = Inl (e', accs2)"
    by (rule process_transactions_Inl)
  with a z show "st_process_pending_transactions H now s = (TransactionFailed e', s\<lparr>accounts := accs2\<rparr>)"
    by (simp add: st_process_pending_transactions_def)
qed

theorem failed_mining_is_not_rolled_back_witness:
  "mine_block toy_digest 5
      (ledger_of [(''A'', acct 1000 ''r1''), (''B'', acct 50 ''r2'')]
                 [transfer ''A'' ''B'' 200, transfer ''B'' ''A'' 5000])
     = (TransactionFailed Insufficient,
        ledger_of [(''A'', acct 775 ''r1''), (''B'', acct 250 ''r2'')]
                  [transfer ''A'' ''B'' 200, transfer ''B'' ''A'' 5000]) \<and>
   st_process_pending_transactions toy_digest 5
      (ledger_of [(''A'', acct 1000 ''r1''), (''B'', acct 50 ''r2'')]
                 [transfer ''A'' ''B'' 200, transfer ''B'' ''A'' 5000])
     = (TransactionFailed Insufficient,
        ledger_of [(''A'', acct 775 ''r1''), (''B'', acct 250 ''r2'')]
                  [transfer ''A'' ''B'' 200, transfer ''B'' ''A'' 5000])"
proof -
  let ?s = "ledger_of [(''A'', acct 1000 ''r1''), (''B'', acct 50 ''r2'')]
                 [transfer ''A'' ''B'' 200, transfer ''B'' ''A'' 5000]"
  let ?accs1 = "[(''A'', acct 775 ''r1''), (''B'', acct 250 ''r2'')]"
  have p: "pending_transactions ?s = [transfer ''A'' ''B'' 200] @ transfer ''B'' ''A'' 5000 # []"
    by (simp add: example_defs)
  have c: "apply_transfers [transfer ''A'' ''B'' 200] (fst (apply_zakat_to_accounts (accounts ?s))) = Inr ?accs1"
    by (simp add: mining_defs example_defs float_eval)
  have d: "apply_transfers [transfer ''A'' ''B'' 200] (fst (st_apply_zakat_to_accounts (accounts ?s))) = Inr ?accs1"
    by (simp add: mining_defs example_defs float_eval)
  have f: "apply_to_accounts (transfer ''B'' ''A'' 5000) ?accs1 = Inl Insufficient"
    by (simp add: mining_defs example_defs float_eval)
  have u: "?s\<lparr>accounts := ?accs1\<rparr> = ledger_of ?accs1 [transfer ''A'' ''B'' 200, transfer ''B'' ''A'' 5000]"
    by (simp add: example_defs)
  from failed_mining_is_not_rolled_back[of ?s "[transfer ''A'' ''B'' 200]" "transfer ''B'' ''A'' 5000" "[]"
      ?accs1 Insufficient toy_digest 5 ?accs1 Insufficient] p c d f u
  show ?thesis by simp
qed

section \<open>C5: mining an empty batch\<close>

text \<open>
  Claim C5. Mining when the queue of pending transfers is empty returns the empty-batch failure
  (the console prints "No pending transactions to mine!" and returns, the dashboards return
  False) and leaves the ledger as it was: the chain keeps its length, no block is created and
  no balance is changed.
\<close>

theorem empty_batch_rejected:
  "(pending_transactions s = [] \<longrightarrow>
      mine_block H now s = (NoPendingTransactions, s) \<and>
      st_process_pending_transactions H now s = (NoPendingTransactions, s) \<and>
      \<not> st_returned NoPendingTransactions \<and>
      length (chain (blockchain (snd (mine_block H now s)))) = length (chain (blockchain s)) \<and>
      length (chain (blockchain (snd (st_process_pending_transactions H now s))))
        = length (chain (blockchain s))) \<and>
   (main_pending_transactions m = [] \<longrightarrow>
      main_process_pending_transactions H now m = (False, m) \<and>
      length (chain (main_blockchain (snd (main_process_pending_transactions H now m))))
        = length (chain (main_blockchain m)))"
  by (simp add: mine_block_def st_process_pending_transactions_def st_returned_def
        main_process_pending_transactions_def)

theorem empty_batch_rejected_witness:
  "pending_transactions (ledger_of [(''A'', acct 1000 ''r1'')] []) = [] \<and>
   mine_block toy_digest 5 (ledger_of [(''A'', acct 1000 ''r1'')] [])
     = (NoPendingTransactions, ledger_of [(''A'', acct 1000 ''r1'')] []) \<and>
   st_process_pending_transactions toy_digest 5 (ledger_of [(''A'', acct 1000 ''r1'')] [])
     = (NoPendingTransactions, ledger_of [(''A'', acct 1000 ''r1'')] []) \<and>
   main_pending_transactions (main_ledger_of [(''A'', Finite 1000)] []) = [] \<and>
   main_process_pending_transactions toy_digest 5 (main_ledger_of [(''A'', Finite 1000)] [])
     = (False, main_ledger_of [(''A'', Finite 1000)] [])"
  using empty_batch_rejected[of "ledger_of [(''A'', acct 1000 ''r1'')] []" toy_digest 5
          "main_ledger_of [(''A'', Finite 1000)] []"]
  by (simp add: example_defs)

section \<open>C9: a transfer accepted at submission that fails at mining\<close>

text \<open>
  Claim C9. There is a ledger in which a transfer accepted at submission (the sender's balance
  is at least the amount) fails when it is mined, because the levy at the start of the same
  mining invocation takes the sender's balance below the amount. In the console: A holds 100,
  the threshold, and sends 100; the levy leaves 97.5. In \<^verbatim>\<open>streamlit_main.py\<close>: A holds 1000
  and sends 1000; the levy leaves 975.
\<close>

theorem accepted_transfer_fails_after_levy:
  "create_transaction (Some 1) (Some 2) (Some (float_of 100))
       (ledger_of [(''A'', acct 100 ''r1''), (''B'', acct 0 ''r2'')] [])
     = (TransactionAdded,
        ledger_of [(''A'', acct 100 ''r1''), (''B'', acct 0 ''r2'')] [transfer ''A'' ''B'' 100]) \<and>
   mine_block toy_digest 5
       (ledger_of [(''A'', acct 100 ''r1''), (''B'', acct 0 ''r2'')] [transfer ''A'' ''B'' 100])
     = (TransactionFailed Insufficient,
        ledger_of [(''A'', acct 97.5 ''r1''), (''B'', acct 0 ''r2'')] [transfer ''A'' ''B'' 100]) \<and>
   st_add_to_pending ''A'' ''B'' (float_of 1000)
       (ledger_of [(''A'', acct 1000 ''r1''), (''B'', acct 0 ''r2'')] [])
     = (StTransactionAdded,
        ledger_of [(''A'', acct 1000 ''r1''), (''B'', acct 0 ''r2'')] [transfer ''A'' ''B'' 1000]) \<and>
   st_process_pending_transactions toy_digest 5
       (ledger_of [(''A'', acct 1000 ''r1''), (''B'', acct 0 ''r2'')] [transfer ''A'' ''B'' 1000])
     = (TransactionFailed Insufficient,
        ledger_of [(''A'', acct 975 ''r1''), (''B'', acct 0 ''r2'')] [transfer ''A'' ''B'' 1000])"
  by (simp add: mining_defs create_transaction_def st_add_to_pending_def example_defs float_eval)

section \<open>C6: who mined the block\<close>

text \<open>
  Claim C6 says that for every successfully mined block the creator (\<^verbatim>\<open>roll_no\<close>) is the owner
  identifier of the sender of the first pending transfer. \<^verbatim>\<open>main.py\<close> passes
  \<^verbatim>\<open>roll_no="2023"\<close> to \<^verbatim>\<open>add_block\<close> whatever the batch is: for the accounts A (owner r1) and
  B (owner r2), of which \<^verbatim>\<open>main.py\<close> keeps the balances only, the block mined for the transfer
  from A to B is created by "2023" and not by r1.
\<close>

theorem main_creator_counterexample:
  "fst (main_process_pending_transactions toy_digest 5
     (main_ledger_of (bare_balances [(''A'', acct 1000 ''r1''), (''B'', acct 500 ''r2'')])
        [transfer ''A'' ''B'' 200])) \<and>
   roll_of [(''A'', acct 1000 ''r1''), (''B'', acct 500 ''r2'')] (sender (transfer ''A'' ''B'' 200))
     = Some ''r1'' \<and>
   block_roll_no (tail (main_blockchain (snd (main_process_pending_transactions toy_digest 5
     (main_ledger_of (bare_balances [(''A'', acct 1000 ''r1''), (''B'', acct 500 ''r2'')])
        [transfer ''A'' ''B'' 200])))))
     = ''2023'' \<and>
   block_roll_no (tail (main_blockchain (snd (main_process_pending_transactions toy_digest 5
     (main_ledger_of (bare_balances [(''A'', acct 1000 ''r1''), (''B'', acct 500 ''r2'')])
        [transfer ''A'' ''B'' 200])))))
     \<noteq> ''r1''"
  by (simp add: mining_defs bare_balances_def roll_of_def example_defs float_eval)

text \<open>
  Claim C6 as amended. In the console and in \<^verbatim>\<open>streamlit_main.py\<close>, every successfully mined
  block is appended to the chain with, as its creator, the owner identifier (roll number) of
  the sender of the first pending transfer; in \<^verbatim>\<open>main.py\<close>, whose accounts carry no owner
  identifier, the creator of every mined block is the fixed roll number "2023".
\<close>

theorem block_creator:
  "(fst (mine_block H now s) = BlockMined \<longrightarrow>
      (\<exists>t ts. pending_transactions s = t # ts \<and>
         roll_of (accounts s) (sender t) =
           Some (block_roll_no (tail (blockchain (snd (mine_block H now s))))) \<and>
         chain (blockchain (snd (mine_block H now s))) =
           chain (blockchain s) @ [tail (blockchain (snd (mine_block H now s)))])) \<and>
   (fst (st_process_pending_transactions H now s) = BlockMined \<longrightarrow>
      (\<exists>t ts. pending_transactions s = t # ts \<and>
         roll_of (accounts s) (sender t) =
           Some (block_roll_no (tail (blockchain (snd (st_process_pending_transactions H now s))))) \<and>
         chain (blockchain (snd (st_process_pending_transactions H now s))) =
           chain (blockchain s) @ [tail (blockchain (snd (st_process_pending_transactions H now s)))])) \<and>
   (fst (main_process_pending_transactions H now m) \<longrightarrow>
      block_roll_no (tail (main_blockchain (snd (main_process_pending_transactions H now m)))) = ''2023'' \<and>
      chain (main_blockchain (snd (main_process_pending_transactions H now m))) =
        chain (main_blockchain m) @ [tail (main_blockchain (snd (main_process_pending_transactions H now m)))])"
proof (intro conjI impI)
  assume "fst (mine_block H now s) = BlockMined"
  from console_mined[OF this] show "\<exists>t ts. pending_transactions s = t # ts \<and>
         roll_of (accounts s) (sender t) =
           Some (block_roll_no (tail (blockchain (snd (mine_block H now s))))) \<and>
         chain (blockchain (snd (mine_block H now s))) =
           chain (blockchain s) @ [tail (blockchain (snd (mine_block H now s)))]"
    by (auto simp: tail_appended chain_appended new_block_def)
next
  assume "fst (st_process_pending_transactions H now s) = BlockMined"
  from st_mined[OF this] show "\<exists>t ts. pending_transactions s = t # ts \<and>
         roll_of (accounts s) (sender t) =
           Some (block_roll_no (tail (blockchain (snd (st_process_pending_transactions H now s))))) \<and>
         chain (blockchain (snd (st_process_pending_transactions H now s))) =
           chain (blockchain s) @ [tail (blockchain (snd (st_process_pending_transactions H now s)))]"
    by (auto simp: tail_appended chain_appended new_block_def)
next
  assume a: "fst (main_process_pending_transactions H now m)"
  from main_mined[OF a]
  show "block_roll_no (tail (main_blockchain (snd (main_process_pending_transactions H now m)))) = ''2023''"
    by (auto simp: tail_appended new_block_def)
  from main_mined[OF a]
  show "chain (main_blockchain (snd (main_process_pending_transactions H now m))) =
        chain (main_blockchain m) @ [tail (main_blockchain (snd (main_process_pending_transactions H now m)))]"
    by (auto simp: tail_appended chain_appended)
qed

theorem block_creator_witness:
  "fst (mine_block toy_digest 5
     (ledger_of [(''A'', acct 1000 ''r1''), (''B'', acct 500 ''r2'')] [transfer ''B'' ''A'' 200]))
     = BlockMined \<and>
   block_roll_no (tail (blockchain (snd (mine_block toy_digest 5
     (ledger_of [(''A'', acct 1000 ''r1''), (''B'', acct 500 ''r2'')] [transfer ''B'' ''A'' 200])))))
     = ''r2'' \<and>
   fst (st_process_pending_transactions toy_digest 5
     (ledger_of [(''A'', acct 1000 ''r1''), (''B'', acct 500 ''r2'')] [transfer ''B'' ''A'' 200]))
     = BlockMined \<and>
   block_roll_no (tail (blockchain (snd (st_process_pending_transactions toy_digest 5
     (ledger_of [(''A'', acct 1000 ''r1''), (''B'', acct 500 ''r2'')] [transfer ''B'' ''A'' 200])))))
     = ''r2'' \<and>
   fst (main_process_pending_transactions toy_digest 5
     (main_ledger_of [(''A'', Finite 1000), (''B'', Finite 500)] [transfer ''B'' ''A'' 200])) \<and>
   block_roll_no (tail (main_blockchain (snd (main_process_pending_transactions toy_digest 5
     (main_ledger_of [(''A'', Finite 1000), (''B'', Finite 500)] [transfer ''B'' ''A'' 200])))))
     = ''2023''"
proof -
  let ?s = "ledger_of [(''A'', acct 1000 ''r1''), (''B'', acct 500 ''r2'')] [transfer ''B'' ''A'' 200]"
  let ?m = "main_ledger_of [(''A'', Finite 1000), (''B'', Finite 500)] [transfer ''B'' ''A'' 200]"
  have 1: "fst (mine_block toy_digest 5 ?s) = BlockMined"
    by (simp add: mining_defs example_defs float_eval)
  have 2: "fst (st_process_pending_transactions toy_digest 5 ?s) = BlockMined"
    by (simp add: mining_defs example_defs float_eval)
  have 3: "fst (main_process_pending_transactions toy_digest 5 ?m)"
    by (simp add: mining_defs example_defs float_eval)
  have 4: "pending_transactions ?s = [transfer ''B'' ''A'' 200]"
       "roll_of (accounts ?s) (sender (transfer ''B'' ''A'' 200)) = Some ''r2''"
    by (simp_all add: roll_of_def example_defs)
  from block_creator[of toy_digest 5 ?s ?m] 1 2 3 4 show ?thesis by auto
qed

section \<open>C8: the zakat entries of a mined block\<close>

text \<open>
  Claim C8 says that whenever the assessment made during mining collects a nonzero total, the
  entry log of the mined block begins with a tax-summary entry with per-account detail entries,
  before all transfer records. The console prints the details and logs the summary only: below,
  zakat of 25 is collected from A, and the mined block holds the summary and the transfer
  record, and no detail entry.
\<close>

theorem console_block_has_no_zakat_detail:
  "flt (Finite 0) (fst (snd (apply_zakat_to_accounts (accounts
     (ledger_of [(''A'', acct 1000 ''r1''), (''B'', acct 50 ''r2'')] [transfer ''A'' ''B'' 200]))))) \<and>
   fst (mine_block toy_digest 5
     (ledger_of [(''A'', acct 1000 ''r1''), (''B'', acct 50 ''r2'')] [transfer ''A'' ''B'' 200]))
     = BlockMined \<and>
   transactions (tail (blockchain (snd (mine_block toy_digest 5
     (ledger_of [(''A'', acct 1000 ''r1''), (''B'', acct 50 ''r2'')] [transfer ''A'' ''B'' 200])))))
     = [ZakatCollection (Finite 25), TransferRecord ''A'' ''r1'' ''B'' ''r2'' (Finite 200)]"
  by (simp add: mining_defs example_defs float_eval)

text \<open>
  Claim C8 as amended. Whenever the assessment made during mining collects a positive total
  (which is the case exactly when some account meets the threshold), the entry log of the mined
  block begins with the tax-summary entry, placed before all transfer records; in
  \<^verbatim>\<open>streamlit_main.py\<close> the summary is followed by one detail entry for every account that
  meets the threshold, in account order, while the console logs the summary alone. Whenever no
  account meets the threshold, no tax entry is in the block. In both cases the rest of the
  log is one transfer record for every pending transfer, in submission order.
\<close>

theorem zakat_entries_in_block:
  "(fst (mine_block H now s) = BlockMined \<longrightarrow>
      (\<exists>new. transactions (tail (blockchain (snd (mine_block H now s)))) =
               (if flt (Finite 0) (fst (snd (apply_zakat_to_accounts (accounts s))))
                then [ZakatCollection (fst (snd (apply_zakat_to_accounts (accounts s))))] else [])
               @ new \<and>
             map Some new = map (transfer_record (accounts s)) (pending_transactions s))) \<and>
   (fst (st_process_pending_transactions H now s) = BlockMined \<longrightarrow>
      (\<exists>new. transactions (tail (blockchain (snd (st_process_pending_transactions H now s)))) =
               (if flt (Finite 0) (fst (snd (st_apply_zakat_to_accounts (accounts s))))
                then ZakatCollection (fst (snd (st_apply_zakat_to_accounts (accounts s)))) #
                     map (\<lambda>(n, a). ZakatDetail n (roll_no a) (fmul (balance a) (float_of (25 / 1000))))
                         (filter (\<lambda>(n, a). fle (Finite 1000) (balance a)) (accounts s))
                else [])
               @ new \<and>
             map Some new = map (transfer_record (accounts s)) (pending_transactions s))) \<and>
   flt (Finite 0) (fst (snd (apply_zakat_to_accounts (accounts s)))) =
     (\<exists>p \<in> set (accounts s). fle (Finite 100) (balance (snd p))) \<and>
   flt (Finite 0) (fst (snd (st_apply_zakat_to_accounts (accounts s)))) =
     (\<exists>p \<in> set (accounts s). fle (Finite 1000) (balance (snd p)))"
proof (intro conjI impI)
  assume "fst (mine_block H now s) = BlockMined"
  from console_mined[OF this]
  show "\<exists>new. transactions (tail (blockchain (snd (mine_block H now s)))) =
               (if flt (Finite 0) (fst (snd (apply_zakat_to_accounts (accounts s))))
                then [ZakatCollection (fst (snd (apply_zakat_to_accounts (accounts s))))] else [])
               @ new \<and>
             map Some new = map (transfer_record (accounts s)) (pending_transactions s)"
    by (auto simp: tail_appended new_block_def console_zakat_records_def)
next
  assume "fst (st_process_pending_transactions H now s) = BlockMined"
  from st_mined[OF this] obtain new r where
    n: "map Some new = map (transfer_record (accounts s)) (pending_transactions s)" and
    b: "blockchain (snd (st_process_pending_transactions H now s)) =
             (blockchain s)\<lparr>mined := mined (blockchain s) @
                [new_block H (hash (tail (blockchain s))) now r
                   (st_zakat_records (fst (snd (st_apply_zakat_to_accounts (accounts s))))
                      (snd (snd (st_apply_zakat_to_accounts (accounts s)))) @ new)]\<rparr>"
    by blast
  have "transactions (tail (blockchain (snd (st_process_pending_transactions H now s)))) =
          st_zakat_records (fst (snd (st_apply_zakat_to_accounts (accounts s))))
                      (snd (snd (st_apply_zakat_to_accounts (accounts s)))) @ new"
    unfolding b by (simp add: tail_appended new_block_def)
  moreover have "map (\<lambda>(n, r, z). ZakatDetail n r z) (snd (snd (st_apply_zakat_to_accounts (accounts s))))
      = map (\<lambda>(n, a). ZakatDetail n (roll_no a) (fmul (balance a) (float_of (25 / 1000))))
                         (filter (\<lambda>(n, a). fle (Finite 1000) (balance a)) (accounts s))"
    unfolding st_details by (simp add: case_prod_unfold)
  ultimately show "\<exists>new. transactions (tail (blockchain (snd (st_process_pending_transactions H now s)))) =
               (if flt (Finite 0) (fst (snd (st_apply_zakat_to_accounts (accounts s))))
                then ZakatCollection (fst (snd (st_apply_zakat_to_accounts (accounts s)))) #
                     map (\<lambda>(n, a). ZakatDetail n (roll_no a) (fmul (balance a) (float_of (25 / 1000))))
                         (filter (\<lambda>(n, a). fle (Finite 1000) (balance a)) (accounts s))
                else [])
               @ new \<and>
             map Some new = map (transfer_record (accounts s)) (pending_transactions s)"
    using n by (intro exI[of _ new]) (simp add: st_zakat_records_def)
qed (rule console_collected_pos st_collected_pos)+

theorem zakat_entries_in_block_witness:
  "fst (mine_block toy_digest 5
     (ledger_of [(''A'', acct 1000 ''r1''), (''B'', acct 50 ''r2'')] [transfer ''A'' ''B'' 200]))
     = BlockMined \<and>
   transactions (tail (blockchain (snd (mine_block toy_digest 5
     (ledger_of [(''A'', acct 1000 ''r1''), (''B'', acct 50 ''r2'')] [transfer ''A'' ''B'' 200])))))
     = [ZakatCollection (Finite 25), TransferRecord ''A'' ''r1'' ''B'' ''r2'' (Finite 200)] \<and>
   fst (st_process_pending_transactions toy_digest 5
     (ledger_of [(''A'', acct 1000 ''r1''), (''B'', acct 50 ''r2'')] [transfer ''A'' ''B'' 200]))
     = BlockMined \<and>
   transactions (tail (blockchain (snd (st_process_pending_transactions toy_digest 5
     (ledger_of [(''A'', acct 1000 ''r1''), (''B'', acct 50 ''r2'')] [transfer ''A'' ''B'' 200])))))
     = [ZakatCollection (Finite 25), ZakatDetail ''A'' ''r1'' (Finite 25),
        TransferRecord ''A'' ''r1'' ''B'' ''r2'' (Finite 200)]"
  using zakat_entries_in_block[of toy_digest 5
      "ledger_of [(''A'', acct 1000 ''r1''), (''B'', acct 50 ''r2'')] [transfer ''A'' ''B'' 200]"]
  by (simp add: mining_defs example_defs float_eval)

section \<open>C10: the threshold of the levy and the threshold of the display\<close>

text \<open>
  Claim C10. In the console the levy made at mining uses the threshold 100, the zakat due that
  is displayed uses the threshold 1000: for every account whose balance \<open>b\<close> satisfies
  \<open>100 \<le> b < 1000\<close>, the levy deducts \<open>b * 0.025\<close> (and that is the account's balance after
  mining when no pending transfer moves it), while the account view shows zero zakat due for
  it and it adds nothing to the totals of the account view and of the system statistics. The
  deduction is the one the program computes, in float arithmetic; the total of the system
  statistics is taken with the builtin \<^verbatim>\<open>sum\<close>, whatever its rounding.
\<close>

theorem console_levy_below_displayed_threshold:
  assumes "map_of (accounts s) name = Some a"
    and "fle (Finite 100) (balance a)" and "flt (balance a) (Finite 1000)"
  shows "balance_of (fst (apply_zakat_to_accounts (accounts s))) name
           = Some (fsub (balance a) (fmul (balance a) (float_of (25 / 1000)))) \<and>
         (pending_transactions s \<noteq> [] \<and> name \<notin> participants (pending_transactions s) \<longrightarrow>
            balance_of (accounts (snd (mine_block H now s))) name
              = Some (fsub (balance a) (fmul (balance a) (float_of (25 / 1000))))) \<and>
         view_zakat_due (balance a) = Finite 0 \<and>
         view_total_zakat (accounts s) = view_total_zakat (remove1 (name, a) (accounts s)) \<and>
         total_zakat_due py_sum (accounts s) = total_zakat_due py_sum (remove1 (name, a) (accounts s))"
proof -
  have lev: "map_of (fst (apply_zakat_to_accounts (accounts s))) name
               = Some (a\<lparr>balance := fsub (balance a) (fmul (balance a) (float_of (25 / 1000)))\<rparr>)"
  proof -
    have "map_of (fst (apply_zakat_to_accounts (accounts s))) name
            = map_option (levied (Finite 100)) (map_of (accounts s) name)"
      by (simp add: apply_zakat_to_accounts_def zakat_loop_result map_of_levied)
    also have "\<dots> = Some (a\<lparr>balance := fsub (balance a) (fmul (balance a) (float_of (25 / 1000)))\<rparr>)"
      using assms(1,2) by (simp add: levied_def calculate_zakat_def default_rate_def)
    finally show ?thesis .
  qed
  then have 1: "balance_of (fst (apply_zakat_to_accounts (accounts s))) name
           = Some (fsub (balance a) (fmul (balance a) (float_of (25 / 1000))))"
    by (simp add: balance_of_def)
  have 2: "balance_of (accounts (snd (mine_block H now s))) name
              = Some (fsub (balance a) (fmul (balance a) (float_of (25 / 1000))))"
    if "pending_transactions s \<noteq> []" "name \<notin> participants (pending_transactions s)"
    using that lev by (simp add: balance_of_def mine_block_accounts apply_transfers_other)
  from assms(3) have n: "\<not> fle (Finite 1000) (balance a)" by (rule flt_not_fle)
  then have 3: "view_zakat_due (balance a) = Finite 0"
    by (simp add: view_zakat_due_def)
  from assms(1) have "(name, a) \<in> set (accounts s)" by (rule map_of_SomeD)
  with 3 have 4: "view_total_zakat (remove1 (name, a) (accounts s)) = view_total_zakat (accounts s)"
    by (intro view_total_zakat_remove1) simp_all
  from n have 5: "total_zakat_due py_sum (remove1 (name, a) (accounts s)) = total_zakat_due py_sum (accounts s)"
    by (intro total_zakat_due_remove1) simp
  from 1 2 3 4 5 show ?thesis by simp
qed

theorem console_levy_below_displayed_threshold_witness:
  "map_of (accounts (ledger_of [(''A'', acct 2000 ''r1''), (''B'', acct 50 ''r2''), (''C'', acct 400 ''r3'')]
             [transfer ''A'' ''B'' 200])) ''C'' = Some (acct 400 ''r3'') \<and>
   fle (Finite 100) (balance (acct 400 ''r3'')) \<and> flt (balance (acct 400 ''r3'')) (Finite 1000) \<and>
   balance_of (accounts (snd (mine_block toy_digest 5
       (ledger_of [(''A'', acct 2000 ''r1''), (''B'', acct 50 ''r2''), (''C'', acct 400 ''r3'')]
             [transfer ''A'' ''B'' 200])))) ''C'' = Some (Finite 390) \<and>
   view_zakat_due (float_of 400) = Finite 0 \<and>
   total_zakat_due sum_left_to_right
       [(''A'', acct 2000 ''r1''), (''B'', acct 50 ''r2''), (''C'', acct 400 ''r3'')] = Finite 50 \<and>
   total_zakat_due sum_left_to_right [(''A'', acct 2000 ''r1''), (''B'', acct 50 ''r2'')] = Finite 50"
proof -
  let ?s = "ledger_of [(''A'', acct 2000 ''r1''), (''B'', acct 50 ''r2''), (''C'', acct 400 ''r3'')]
             [transfer ''A'' ''B'' 200]"
  have h: "map_of (accounts ?s) ''C'' = Some (acct 400 ''r3'')"
     "fle (Finite 100) (balance (acct 400 ''r3''))" "flt (balance (acct 400 ''r3'')) (Finite 1000)"
    by (simp_all add: example_defs float_eval)
  have p: "pending_transactions ?s \<noteq> []" "''C'' \<notin> participants (pending_transactions ?s)"
    by (simp_all add: participants_def example_defs)
  have t: "total_zakat_due sum_left_to_right [(''A'', acct 2000 ''r1''), (''B'', acct 50 ''r2'')] = Finite 50"
    by (simp add: total_zakat_due_def sum_left_to_right_def calculate_zakat_def default_rate_def
          example_defs float_eval)
  have r: "remove1 (''C'', acct 400 ''r3'') (accounts ?s) = [(''A'', acct 2000 ''r1''), (''B'', acct 50 ''r2'')]"
     "accounts ?s = [(''A'', acct 2000 ''r1''), (''B'', acct 50 ''r2''), (''C'', acct 400 ''r3'')]"
    by (simp_all add: example_defs)
  have b: "balance (acct 400 ''r3'') = float_of 400" by (simp add: acct_def)
  have v: "fsub (float_of 400) (fmul (float_of 400) (float_of (25 / 1000))) = Finite 390"
    by (simp add: float_eval)
  from console_levy_below_displayed_threshold[OF h, of toy_digest 5 sum_left_to_right] p h t
  show ?thesis unfolding r b v by simp
qed

section \<open>C4: chain linkage\<close>

text \<open>
  Claim C4. A freshly constructed chain has length 1 and is valid; every chain built from it
  solely by appending is valid; and altering the entries or the digest of any stored block
  directly, behind the append operation, makes the chain invalid, with the altered block's index
  reported as the first broken index. The digest function is a parameter: an alteration of the
  entries is one that the digest tells from the original entries (the specification requires
  the digest to be collision-resistant), an alteration of the digest is any other digest value.
\<close>

theorem chain_linkage:
  "length (chain (new_blockchain H sentinel now creator)) = 1 \<and>
   is_valid H (chain (new_blockchain H sentinel now creator)) \<and>
   (add_blocks H calls (new_blockchain H sentinel now creator) = Inr c \<longrightarrow>
      is_valid H (chain c) \<and>
      (i < length (chain c) \<and>
       H (prev_hash (chain c ! i)) (timestamp (chain c ! i)) (block_roll_no (chain c ! i)) entries'
         \<noteq> H (prev_hash (chain c ! i)) (timestamp (chain c ! i)) (block_roll_no (chain c ! i))
             (transactions (chain c ! i)) \<longrightarrow>
         \<not> is_valid H ((chain c)[i := (chain c ! i)\<lparr>transactions := entries'\<rparr>]) \<and>
         first_invalid_index H ((chain c)[i := (chain c ! i)\<lparr>transactions := entries'\<rparr>]) = Some i) \<and>
      (i < length (chain c) \<and> digest' \<noteq> hash (chain c ! i) \<longrightarrow>
         \<not> is_valid H ((chain c)[i := (chain c ! i)\<lparr>hash := digest'\<rparr>]) \<and>
         first_invalid_index H ((chain c)[i := (chain c ! i)\<lparr>hash := digest'\<rparr>]) = Some i))"
proof -
  have fresh: "first_invalid_from H 0 (chain (new_blockchain H sentinel now creator)) = None"
    by (rule new_blockchain_valid)
  have built: "first_invalid_from H 0 (chain c) = None"
    if "add_blocks H calls (new_blockchain H sentinel now creator) = Inr c"
    using that fresh by (rule add_blocks_valid)
  have entries: "first_invalid_from H 0 ((chain c)[i := (chain c ! i)\<lparr>transactions := entries'\<rparr>]) = Some i"
    if v: "first_invalid_from H 0 (chain c) = None" and i: "i < length (chain c)"
      and h: "H (prev_hash (chain c ! i)) (timestamp (chain c ! i)) (block_roll_no (chain c ! i)) entries'
         \<noteq> H (prev_hash (chain c ! i)) (timestamp (chain c ! i)) (block_roll_no (chain c ! i))
             (transactions (chain c ! i))"
  proof -
    from first_invalid_from_nth[OF v i] h
    have "compute_hash H ((chain c ! i)\<lparr>transactions := entries'\<rparr>)
            \<noteq> hash ((chain c ! i)\<lparr>transactions := entries'\<rparr>)"
      by (simp add: compute_hash_def)
    from first_invalid_from_update[OF v i _ this] show ?thesis by simp
  qed
  have digest: "first_invalid_from H 0 ((chain c)[i := (chain c ! i)\<lparr>hash := digest'\<rparr>]) = Some i"
    if v: "first_invalid_from H 0 (chain c) = None" and i: "i < length (chain c)"
      and h: "digest' \<noteq> hash (chain c ! i)"
  proof -
    from first_invalid_from_nth[OF v i] h
    have "compute_hash H ((chain c ! i)\<lparr>hash := digest'\<rparr>) \<noteq> hash ((chain c ! i)\<lparr>hash := digest'\<rparr>)"
      by (simp add: compute_hash_def)
    from first_invalid_from_update[OF v i _ this] show ?thesis by simp
  qed
  have "length (chain (new_blockchain H sentinel now creator)) = 1"
    by (simp add: chain_def new_blockchain_def)
  with fresh built entries digest show ?thesis
    by (simp add: is_valid_def first_invalid_index_def)
qed

theorem chain_linkage_witness:
  "add_blocks toy_digest example_calls (new_blockchain toy_digest 0 0 ''SYSTEM'') = Inr example_chain \<and>
   is_valid toy_digest (chain example_chain) \<and>
   (1::nat) < length (chain example_chain) \<and>
   toy_digest (prev_hash (chain example_chain ! 1)) (timestamp (chain example_chain ! 1))
      (block_roll_no (chain example_chain ! 1)) []
     \<noteq> toy_digest (prev_hash (chain example_chain ! 1)) (timestamp (chain example_chain ! 1))
      (block_roll_no (chain example_chain ! 1)) (transactions (chain example_chain ! 1)) \<and>
   first_invalid_index toy_digest
      ((chain example_chain)[1 := (chain example_chain ! 1)\<lparr>transactions := []\<rparr>]) = Some 1 \<and>
   99 \<noteq> hash (chain example_chain ! 1) \<and>
   first_invalid_index toy_digest
      ((chain example_chain)[1 := (chain example_chain ! 1)\<lparr>hash := 99\<rparr>]) = Some 1"
proof -
  have b: "add_blocks toy_digest example_calls (new_blockchain toy_digest 0 0 ''SYSTEM'') = Inr example_chain"
    by (simp add: example_calls_def example_chain_def add_block_def new_blockchain_def new_block_def
          tail_def chain_def toy_digest_def)
  have i: "(1::nat) < length (chain example_chain)"
    by (simp add: example_chain_def chain_def)
  have h: "toy_digest (prev_hash (chain example_chain ! 1)) (timestamp (chain example_chain ! 1))
      (block_roll_no (chain example_chain ! 1)) []
     \<noteq> toy_digest (prev_hash (chain example_chain ! 1)) (timestamp (chain example_chain ! 1))
      (block_roll_no (chain example_chain ! 1)) (transactions (chain example_chain ! 1))"
    by (simp add: example_chain_def chain_def toy_digest_def)
  have d: "99 \<noteq> hash (chain example_chain ! 1)"
    by (simp add: example_chain_def chain_def)
  from chain_linkage[of toy_digest 0 0 "''SYSTEM''" example_calls example_chain 1 "[]" 99] b i h d
  show ?thesis by simp
qed

section \<open>C7: the checks at submission and at commit\<close>




end
